theory Spec2Isabelle
  imports
    Main
    "HOL-Library.Word"
    "HOL-Library.Char_ord"
    "HOL-Library.List_Lexorder"
    "HOL-Library.Multiset"
begin

section \<open>firestore2csv: the Go library functions the exporter calls\<close>

text \<open>
  The exporter (\<^verbatim>\<open>src/main.go\<close> and its later revision \<^verbatim>\<open>src/unnamed/part_001\<close>)
  calls \<^verbatim>\<open>strconv\<close>, \<^verbatim>\<open>time\<close>, \<^verbatim>\<open>encoding/base64\<close>, \<^verbatim>\<open>encoding/json\<close> and
  \<^verbatim>\<open>sort\<close> of the Go standard library. Their sources are not part of the repository;
  this section models their documented behaviour, one function each, under the Go name.
  A Go \<^verbatim>\<open>string\<close> is a byte sequence: \<^typ>\<open>string\<close>, one \<^typ>\<open>char\<close> per byte. The order on
  strings (\<^verbatim>\<open>sort.Strings\<close>, the key order of \<^verbatim>\<open>json.Marshal\<close>) is byte-wise
  lexicographic: the order of \<^typ>\<open>char list\<close> here.
\<close>

type_synonym int64 = "64 word"
type_synonym byte = "8 word"

subsection \<open>strconv\<close>

definition digit :: "nat \<Rightarrow> char" where
  "digit n = ''0123456789'' ! (n mod 10)"

fun dec :: "nat \<Rightarrow> string" where
  "dec n = (if n < 10 then [digit n] else dec (n div 10) @ [digit (n mod 10)])"

declare dec.simps [simp del]

text \<open>\<^verbatim>\<open>strconv.FormatInt(val, 10)\<close>: sign and decimal digits, no padding.\<close>

definition FormatInt :: "int64 \<Rightarrow> string" where
  "FormatInt w =
     (let i = sint w in if i < 0 then CHR ''-'' # dec (nat (- i)) else dec (nat i))"

text \<open>
  A \<^verbatim>\<open>float64\<close>. The only thing the exporter does with one is to print it, through
  \<^verbatim>\<open>strconv\<close>'s shortest-digits conversion. That conversion (from the binary form to the
  shortest decimal digits that read back as the same number) lies inside \<^verbatim>\<open>strconv\<close>
  and is not modelled: a finite number is represented by what the conversion yields for
  it, \<^verbatim>\<open>strconv\<close>'s \<^verbatim>\<open>decimalSlice\<close>: the sign \<open>neg\<close>, the digits \<open>d\<close> (none for
  zero, no leading or trailing zero otherwise) and the position \<open>dp\<close> of the decimal
  point, the number being \<open>0.d \<times> 10 ^ dp\<close>.
\<close>

datatype float64 =
    NaN
  | Inf bool
  | Finite (neg: bool) (d: "nat list") (dp: int)

definition digits :: "nat list \<Rightarrow> string" where
  "digits ds = map digit ds"

text \<open>
  \<^verbatim>\<open>fmtF\<close> of \<^verbatim>\<open>strconv/ftoa.go\<close>, the \<^verbatim>\<open>'f'\<close> format: the integer part (digits before the
  point, padded with zeros, or a single zero), then \<open>prec\<close> fraction digits.
\<close>

definition fmtF :: "bool \<Rightarrow> nat list \<Rightarrow> int \<Rightarrow> nat \<Rightarrow> string" where
  "fmtF ng ds p prec =
     (if ng then ''-'' else '''')
     @ (if 0 < p
        then digits (take (nat p) ds) @ replicate (nat p - length ds) (CHR ''0'')
        else ''0'')
     @ (if 0 < prec
        then CHR ''.'' # map (\<lambda>i. let j = p + int i in
                         if 0 \<le> j \<and> j < int (length ds) then digit (ds ! nat j)
                         else CHR ''0'') [0 ..< prec]
        else '''')"

text \<open>
  \<^verbatim>\<open>fmtE\<close>, the \<^verbatim>\<open>'e'\<close> format: first digit, the other digits after a point, then the
  exponent with its sign and at least two digits.
\<close>

definition fmtE :: "bool \<Rightarrow> nat list \<Rightarrow> int \<Rightarrow> nat \<Rightarrow> string" where
  "fmtE ng ds p prec =
     (if ng then ''-'' else '''')
     @ [if ds = [] then CHR ''0'' else digit (hd ds)]
     @ (if 0 < prec
        then CHR ''.'' # digits (take prec (tl ds))
             @ replicate (prec - length (tl ds)) (CHR ''0'')
        else '''')
     @ ''e''
     @ (let ex = (if ds = [] then 0 else p - 1) in
        (if ex < 0 then ''-'' else ''+'')
        @ (if \<bar>ex\<bar> < 10 then CHR ''0'' # dec (nat \<bar>ex\<bar>) else dec (nat \<bar>ex\<bar>)))"

text \<open>
  \<^verbatim>\<open>strconv.FormatFloat(val, 'f', -1, 64)\<close>: the special values by name, a finite number
  in the \<^verbatim>\<open>'f'\<close> format with as many fraction digits as the shortest digits need
  (\<^verbatim>\<open>prec = max(digs.nd - digs.dp, 0)\<close>).
\<close>

fun FormatFloat_f :: "float64 \<Rightarrow> string" where
  "FormatFloat_f NaN = ''NaN''"
| "FormatFloat_f (Inf ng) = (if ng then ''-Inf'' else ''+Inf'')"
| "FormatFloat_f (Finite ng ds p) = fmtF ng ds p (nat (int (length ds) - p))"

text \<open>\<^verbatim>\<open>strconv.FormatFloat(val, 'e', -1, 64)\<close>, for finite numbers (\<^verbatim>\<open>prec = max(digs.nd - 1, 0)\<close>).\<close>

definition FormatFloat_e :: "bool \<Rightarrow> nat list \<Rightarrow> int \<Rightarrow> string" where
  "FormatFloat_e ng ds p = fmtE ng ds p (length ds - 1)"

subsection \<open>time\<close>

text \<open>
  A \<^verbatim>\<open>time.Time\<close>, as \<^verbatim>\<open>Format\<close> reads it: the civil date and clock fields and the
  nanosecond within the second (\<^verbatim>\<open>t.Date()\<close>, \<^verbatim>\<open>t.Clock()\<close>, \<^verbatim>\<open>t.Nanosecond()\<close>). The
  Firestore client hands timestamps over in UTC, so the record has no zone and the zone
  element \<^verbatim>\<open>Z07:00\<close> of a layout prints as \<^verbatim>\<open>Z\<close>.
\<close>

record Time =
  year :: nat
  month :: nat
  day :: nat
  hour :: nat
  minute :: nat
  second :: nat
  nanosecond :: nat

text \<open>\<^verbatim>\<open>appendInt(b, x, width)\<close> of \<^verbatim>\<open>time/format.go\<close>: decimal, zero-padded to the width.\<close>

definition appendInt :: "nat \<Rightarrow> nat \<Rightarrow> string" where
  "appendInt x width = replicate (width - length (dec x)) (CHR ''0'') @ dec x"

definition trimZeros :: "string \<Rightarrow> string" where
  "trimZeros s = rev (dropWhile (\<lambda>c. c = CHR ''0'') (rev s))"

text \<open>
  \<^verbatim>\<open>appendNano\<close> for the layout element \<^verbatim>\<open>.999999999\<close>: nothing when the nanosecond is
  zero; otherwise the point, the nanosecond at nine digits, and then the trailing zeros
  removed.
\<close>

definition appendNano :: "nat \<Rightarrow> string" where
  "appendNano ns = (if ns = 0 then '''' else CHR ''.'' # trimZeros (appendInt ns 9))"

text \<open>\<^verbatim>\<open>t.Format(time.RFC3339Nano)\<close>, the layout \<^verbatim>\<open>2006-01-02T15:04:05.999999999Z07:00\<close>.\<close>

definition dateTime :: "Time \<Rightarrow> string" where
  "dateTime t =
     appendInt (year t) 4 @ ''-'' @ appendInt (month t) 2 @ ''-'' @ appendInt (day t) 2
     @ ''T'' @ appendInt (hour t) 2 @ '':'' @ appendInt (minute t) 2
     @ '':'' @ appendInt (second t) 2"

definition Format_RFC3339Nano :: "Time \<Rightarrow> string" where
  "Format_RFC3339Nano t = dateTime t @ appendNano (nanosecond t) @ ''Z''"

subsection \<open>encoding/base64\<close>

definition encodeStd :: string where
  "encodeStd = ''ABCDEFGHIJKLMNOPQRSTUVWXYZabcdefghijklmnopqrstuvwxyz0123456789+/''"

definition b64 :: "nat \<Rightarrow> char" where
  "b64 n = encodeStd ! (n mod 64)"

text \<open>
  \<^verbatim>\<open>base64.StdEncoding.EncodeToString\<close>: three bytes give four characters; a rest of one
  or two bytes gives two or three characters and padding.
\<close>

fun EncodeToString :: "byte list \<Rightarrow> string" where
  "EncodeToString (a # b # c # rest) =
     (let v = unat a * 65536 + unat b * 256 + unat c in
      [b64 (v div 262144), b64 (v div 4096), b64 (v div 64), b64 v])
     @ EncodeToString rest"
| "EncodeToString [a, b] =
     (let v = unat a * 65536 + unat b * 256 in
      [b64 (v div 262144), b64 (v div 4096), b64 (v div 64), CHR ''='']) "
| "EncodeToString [a] =
     (let v = unat a * 65536 in
      [b64 (v div 262144), b64 (v div 4096), CHR ''='', CHR ''='']) "
| "EncodeToString [] = []"

subsection \<open>encoding/json\<close>

text \<open>
  What \<^verbatim>\<open>convertForJSON\<close> hands to \<^verbatim>\<open>json.Marshal\<close>: a Go \<^verbatim>\<open>interface{}\<close> holding
  \<^verbatim>\<open>nil\<close>, a \<^verbatim>\<open>bool\<close>, an \<^verbatim>\<open>int64\<close>, a \<^verbatim>\<open>float64\<close>, a \<^verbatim>\<open>string\<close>, a slice or a map
  with string keys. A Go map has no order of its own; it is listed here in the order in
  which a \<^verbatim>\<open>range\<close> loop happened to visit it, and its keys are distinct.
\<close>

datatype plain =
    PNil
  | PBool bool
  | PInt int64
  | PFloat float64
  | PString string
  | PSlice "plain list"
  | PMap "(string \<times> plain) list"

text \<open>
  The JSON document \<^verbatim>\<open>json.Marshal\<close> writes, before it is laid out as text: the members
  of an object in the order in which they are written.
\<close>

datatype json =
    JNull
  | JBool bool
  | JNumber string
  | JString string
  | JArray "json list"
  | JObject "(string \<times> json) list"

text \<open>
  The float encoder of \<^verbatim>\<open>encoding/json\<close>: \<^verbatim>\<open>NaN\<close> and the infinities are an
  \<^verbatim>\<open>UnsupportedValueError\<close>; a finite number is printed by \<^verbatim>\<open>strconv\<close> in the \<^verbatim>\<open>'f'\<close>
  format, or in the \<^verbatim>\<open>'e'\<close> format when it is not zero and its absolute value is below
  \<^verbatim>\<open>1e-6\<close> or at least \<^verbatim>\<open>1e21\<close> (with digits \<open>0.d \<times> 10 ^ dp\<close>: when \<open>dp \<le> -6\<close> or
  \<open>22 \<le> dp\<close>), and then an exponent \<^verbatim>\<open>e-0N\<close> is shortened to \<^verbatim>\<open>e-N\<close>.
\<close>

definition cleanExp :: "string \<Rightarrow> string" where
  "cleanExp b =
     (let n = length b in
      if 4 \<le> n \<and> b ! (n - 4) = CHR ''e''
         \<and> (b ! (n - 3) = CHR ''-'' \<or> b ! (n - 3) = CHR ''+'')
         \<and> b ! (n - 2) = CHR ''0''
      then take (n - 2) b @ [b ! (n - 1)]
      else b)"

fun floatEncoder :: "float64 \<Rightarrow> string option" where
  "floatEncoder NaN = None"
| "floatEncoder (Inf ng) = None"
| "floatEncoder (Finite ng ds p) =
     (if ds \<noteq> [] \<and> (p \<le> - 6 \<or> 22 \<le> p)
      then Some (cleanExp (FormatFloat_e ng ds p))
      else Some (FormatFloat_f (Finite ng ds p)))"

text \<open>
  \<^verbatim>\<open>json.Marshal\<close>, first half: the document. A map is written with its keys sorted
  (\<^verbatim>\<open>encoding/json\<close>: ``the map keys are sorted''); an unsupported value anywhere makes the
  whole call return an error and no bytes, which is \<open>None\<close> here.
\<close>

fun marshal :: "plain \<Rightarrow> json option" where
  "marshal PNil = Some JNull"
| "marshal (PBool b) = Some (JBool b)"
| "marshal (PInt i) = Some (JNumber (FormatInt i))"
| "marshal (PFloat f) = map_option JNumber (floatEncoder f)"
| "marshal (PString s) = Some (JString s)"
| "marshal (PSlice xs) = map_option JArray (those (map marshal xs))"
| "marshal (PMap kvs) =
     map_option JObject
       (those (map (\<lambda>(k, e). map_option (Pair k) (marshal e)) (sort_key fst kvs)))"

text \<open>
  The string encoder of \<^verbatim>\<open>encoding/json\<close> (\<^verbatim>\<open>appendString\<close> with HTML escaping, which
  \<^verbatim>\<open>json.Marshal\<close> switches on), as of Go 1.22: the quote and the backslash are
  escaped with a backslash; backspace, form feed, newline, carriage return and tab have
  their short escapes (older releases write backspace and form feed as \<^verbatim>\<open>\u0008\<close> and
  \<^verbatim>\<open>\u000c\<close>); the other bytes below \<^verbatim>\<open>0x20\<close> and \<^verbatim>\<open><\<close>, \<^verbatim>\<open>>\<close>, \<^verbatim>\<open>&\<close> are written as
  \<^verbatim>\<open>\u00XX\<close>; a byte that does not start well-formed UTF-8 becomes \<^verbatim>\<open>\ufffd\<close>; the
  line and paragraph separators U+2028 and U+2029 are escaped; everything else is copied.
  \<open>utf8Size\<close> is the size \<^verbatim>\<open>utf8.DecodeRuneInString\<close> reports for a well-formed sequence
  at the head of the string, and 0 where it reports \<^verbatim>\<open>RuneError\<close> with size 1.
\<close>

definition hex :: "nat \<Rightarrow> char" where
  "hex n = ''0123456789abcdef'' ! (n mod 16)"

definition bslash :: char where
  "bslash = CHR 0x5C"

definition dquote :: char where
  "dquote = CHR 0x22"

definition cont :: "nat \<Rightarrow> nat \<Rightarrow> char \<Rightarrow> bool" where
  "cont lo hi c = (lo \<le> (of_char c :: nat) \<and> (of_char c :: nat) \<le> hi)"

fun utf8Size :: "string \<Rightarrow> nat" where
  "utf8Size (a # b # rest) =
     (let x = (of_char a :: nat) in
      if 0xC2 \<le> x \<and> x \<le> 0xDF then (if cont 0x80 0xBF b then 2 else 0)
      else if 0xE0 \<le> x \<and> x \<le> 0xEF then
        (case rest of
           c # _ \<Rightarrow>
             if cont (if x = 0xE0 then 0xA0 else 0x80) (if x = 0xED then 0x9F else 0xBF) b
                \<and> cont 0x80 0xBF c
             then 3 else 0
         | [] \<Rightarrow> 0)
      else if 0xF0 \<le> x \<and> x \<le> 0xF4 then
        (case rest of
           c # e # _ \<Rightarrow>
             if cont (if x = 0xF0 then 0x90 else 0x80) (if x = 0xF4 then 0x8F else 0xBF) b
                \<and> cont 0x80 0xBF c \<and> cont 0x80 0xBF e
             then 4 else 0
         | _ \<Rightarrow> 0)
      else 0)"
| "utf8Size _ = 0"

definition escapeByte :: "char \<Rightarrow> string" where
  "escapeByte c =
     (let x = (of_char c :: nat) in
      if c = bslash \<or> c = dquote then [bslash, c]
      else if x = 8 then [bslash, CHR ''b'']
      else if x = 12 then [bslash, CHR ''f'']
      else if x = 10 then [bslash, CHR ''n'']
      else if x = 13 then [bslash, CHR ''r'']
      else if x = 9 then [bslash, CHR ''t'']
      else if x < 32 \<or> c = CHR ''<'' \<or> c = CHR ''>'' \<or> c = CHR ''&''
      then [bslash, CHR ''u'', CHR ''0'', CHR ''0'', hex (x div 16), hex x]
      else [c])"

function escape :: "string \<Rightarrow> string" where
  "escape [] = []"
| "escape (c # cs) =
     (if (of_char c :: nat) < 128 then escapeByte c @ escape cs
      else
        (let n = utf8Size (c # cs) in
         if n = 0 then bslash # ''ufffd'' @ escape cs
         else if take 3 (c # cs) = [CHR 0xE2, CHR 0x80, CHR 0xA8]
           then bslash # ''u2028'' @ escape (drop 2 cs)
         else if take 3 (c # cs) = [CHR 0xE2, CHR 0x80, CHR 0xA9]
           then bslash # ''u2029'' @ escape (drop 2 cs)
         else take n (c # cs) @ escape (drop (n - 1) cs)))"
  by pat_completeness auto
termination
  by (relation "measure length") auto

definition appendString :: "string \<Rightarrow> string" where
  "appendString s = dquote # escape s @ [dquote]"

text \<open>\<^verbatim>\<open>strings.Join\<close>.\<close>

fun Join :: "string list \<Rightarrow> string \<Rightarrow> string" where
  "Join [] sep = []"
| "Join [x] sep = x"
| "Join (x # y # ys) sep = x @ sep @ Join (y # ys) sep"

text \<open>\<^verbatim>\<open>json.Marshal\<close>, second half: the compact text of the document.\<close>

fun render :: "json \<Rightarrow> string" where
  "render JNull = ''null''"
| "render (JBool b) = (if b then ''true'' else ''false'')"
| "render (JNumber s) = s"
| "render (JString s) = appendString s"
| "render (JArray xs) = ''['' @ Join (map render xs) '','' @ '']''"
| "render (JObject ms) =
     ''{'' @ Join (map (\<lambda>(k, e). appendString k @ '':'' @ render e) ms) '','' @ ''}''"

text \<open>
  \<^verbatim>\<open>b, _ := json.Marshal(x); string(b)\<close>, as \<^verbatim>\<open>formatValue\<close> calls it: the error is
  dropped, and with an error \<^verbatim>\<open>b\<close> is \<^verbatim>\<open>nil\<close>, so the string is empty.
\<close>

definition Marshal :: "plain \<Rightarrow> string option" where
  "Marshal x = map_option render (marshal x)"

definition marshalString :: "plain \<Rightarrow> string" where
  "marshalString x = (case Marshal x of None \<Rightarrow> [] | Some b \<Rightarrow> b)"

section \<open>The value normalizer: \<^verbatim>\<open>formatValue\<close> and \<^verbatim>\<open>convertForJSON\<close>\<close>

text \<open>
  The dynamic types a Firestore document field can hold, one constructor for each
  \<^verbatim>\<open>case\<close> of the type switches in \<^verbatim>\<open>formatValue\<close> and \<^verbatim>\<open>convertForJSON\<close>, in their
  order. Of a \<^verbatim>\<open>*firestore.DocumentRef\<close> the code reads the \<^verbatim>\<open>Path\<close> only, of a
  \<^verbatim>\<open>*latlng.LatLng\<close> the latitude and the longitude. \<open>VOther\<close> stands for a value of
  any other dynamic type, which takes the \<^verbatim>\<open>default\<close> branch; it carries what
  \<^verbatim>\<open>fmt.Sprintf("%v", v)\<close> prints for the value. The Firestore client returns none. A
  \<^verbatim>\<open>map[string]interface{}\<close> is listed in the order in which \<^verbatim>\<open>range\<close> visits it (Go
  leaves that order open); its keys are distinct.
\<close>

datatype "value" =
    VNil
  | VBool bool
  | VInt int64
  | VFloat float64
  | VString string
  | VTime Time
  | VLatLng float64 float64
  | VBytes "byte list"
  | VDocumentRef string
  | VSlice "value list"
  | VMap "(string \<times> value) list"
  | VOther string

text \<open>\<^verbatim>\<open>map[string]float64{"lat": ..., "lng": ...}\<close>, marshalled like any map.\<close>

definition latLngMap :: "float64 \<Rightarrow> float64 \<Rightarrow> plain" where
  "latLngMap la lo = PMap [(''lat'', PFloat la), (''lng'', PFloat lo)]"

fun convertForJSON :: "value \<Rightarrow> plain" where
  "convertForJSON VNil = PNil"
| "convertForJSON (VBool b) = PBool b"
| "convertForJSON (VInt i) = PInt i"
| "convertForJSON (VFloat f) = PFloat f"
| "convertForJSON (VString s) = PString s"
| "convertForJSON (VTime t) = PString (Format_RFC3339Nano t)"
| "convertForJSON (VLatLng la lo) = latLngMap la lo"
| "convertForJSON (VBytes bs) = PString (EncodeToString bs)"
| "convertForJSON (VDocumentRef path) = PString path"
| "convertForJSON (VSlice xs) = PSlice (map convertForJSON xs)"
| "convertForJSON (VMap kvs) = PMap (map (\<lambda>(k, elem). (k, convertForJSON elem)) kvs)"
| "convertForJSON (VOther printed) = PString printed"

fun formatValue :: "value \<Rightarrow> string" where
  "formatValue VNil = []"
| "formatValue (VBool b) = (if b then ''true'' else ''false'')"
| "formatValue (VInt i) = FormatInt i"
| "formatValue (VFloat f) = FormatFloat_f f"
| "formatValue (VString s) = s"
| "formatValue (VTime t) = Format_RFC3339Nano t"
| "formatValue (VLatLng la lo) = marshalString (latLngMap la lo)"
| "formatValue (VBytes bs) = EncodeToString bs"
| "formatValue (VDocumentRef path) = path"
| "formatValue (VSlice xs) = marshalString (convertForJSON (VSlice xs))"
| "formatValue (VMap kvs) = marshalString (convertForJSON (VMap kvs))"
| "formatValue (VOther printed) = printed"

section \<open>The collection exporter: \<^verbatim>\<open>exportCollection\<close>\<close>

text \<open>
  Go's \<^verbatim>\<open>error\<close> values. \<open>LibError\<close> is an error handed back by a library (the
  document iterator, \<^verbatim>\<open>os\<close>, the CSV writer); the other constructors are the
  \<^verbatim>\<open>fmt.Errorf\<close> wrappers of the program. A \<^verbatim>\<open>nil\<close> error is \<open>None\<close>.
\<close>

datatype error =
    LibError string
  | ReadingCollection string error
  | CreatingFile string error
  | WritingHeader error
  | WritingRow error
  | FailedOutputDir string error
  | FailedClient error
  | FailedResolve error
  | ListingCollections error
  | NoCollectionsFound
  | ExportFailed nat

text \<open>
  A run-time panic. It is not an \<^verbatim>\<open>error\<close> value: it unwinds the whole program, which
  exits with status 2. A function that can panic has the result type \<open>panic + 'a\<close>.
\<close>

datatype panic = NilDereference

text \<open>
  \<^verbatim>\<open>docRecord\<close>: the identifier and the field map of one document snapshot
  (\<^verbatim>\<open>snap.Ref.ID\<close>, \<^verbatim>\<open>snap.Data()\<close>). The field map is a Go map: listed in some order,
  keys distinct, looked up with \<^const>\<open>map_of\<close>.
\<close>

record docRecord =
  doc_id :: string
  doc_data :: "(string \<times> value) list"

text \<open>\<^verbatim>\<open>exportResult\<close> of \<^verbatim>\<open>part_001\<close>; \<^verbatim>\<open>int\<close> counts are lengths, so \<^typ>\<open>nat\<close>.\<close>

record exportResult =
  collection :: string
  docCount :: nat
  fieldCount :: nat
  filePath :: string
  err :: "error option"

text \<open>
  The world outside the program, as far as a run depends on it:
  \<^item> \<open>stream name\<close>: for a collection reference that is not \<^verbatim>\<open>nil\<close>, what the iterator
    of \<^verbatim>\<open>colRef.Query.Documents(ctx)\<close> returns from its calls of \<^verbatim>\<open>Next\<close>, in order,
    before \<^verbatim>\<open>iterator.Done\<close>: a snapshot or an error each;
  \<^item> \<open>create_error path\<close>: the error of \<^verbatim>\<open>os.Create(path)\<close>, if any;
  \<^item> \<open>write_error path n\<close>: the error of the CSV writer's \<^verbatim>\<open>Write\<close> of row \<open>n\<close> of that
    file (the header is row 0), if any;
  \<^item> \<open>joinPath\<close>: \<^verbatim>\<open>filepath.Join\<close>;
  \<^item> \<open>mkdirAll\<close>, \<open>newClient\<close>, \<open>collectionIDs\<close>, \<open>trimSpace\<close>: \<^verbatim>\<open>os.MkdirAll\<close>,
    \<^verbatim>\<open>firestore.NewClientWithDatabase\<close>, the iterator of \<^verbatim>\<open>client.Collections(ctx)\<close> and
    \<^verbatim>\<open>strings.TrimSpace\<close>, for \<^verbatim>\<open>run\<close>.
\<close>

record env =
  stream :: "string \<Rightarrow> (error + docRecord) list"
  create_error :: "string \<Rightarrow> error option"
  write_error :: "string \<Rightarrow> nat \<Rightarrow> error option"
  joinPath :: "string \<Rightarrow> string \<Rightarrow> string"
  mkdirAll :: "string \<Rightarrow> error option"
  newClient :: "error option"
  collectionIDs :: "(error + string) list"
  trimSpace :: "string \<Rightarrow> string"

text \<open>The files written: for each path, the rows the CSV writer has accepted.\<close>

type_synonym files = "string \<rightharpoonup> string list list"

text \<open>\<^verbatim>\<open>strings.Split(s, sep)\<close> for a separator of one byte.\<close>

fun Split :: "string \<Rightarrow> char \<Rightarrow> string list" where
  "Split [] sep = [[]]"
| "Split (c # cs) sep =
     (if c = sep then [] # Split cs sep
      else (case Split cs sep of p # ps \<Rightarrow> (c # p) # ps | [] \<Rightarrow> [[c]]))"

text \<open>
  \<^verbatim>\<open>client.Collection(path)\<close> of the Firestore client, whose source is not part of the
  repository, modelled from its documentation (``Collection returns nil if path contains
  an even number of IDs or any ID is empty''): the path is split at \<^verbatim>\<open>/\<close>; the result
  is \<^verbatim>\<open>nil\<close> (\<open>None\<close>) when a segment is empty or when the number of segments is even
  (the path of a document), and a collection reference otherwise, here its segments. In
  particular the empty name gives \<^verbatim>\<open>nil\<close>.
\<close>

definition Collection :: "string \<Rightarrow> string list option" where
  "Collection path =
     (let IDs = Split path (CHR ''/'') in
      if [] \<in> set IDs \<or> even (length IDs) then None else Some IDs)"

text \<open>
  The first lines of \<^verbatim>\<open>exportCollection\<close>, up to the iterator:
  \<^verbatim>\<open>colRef := client.Collection(name); query := colRef.Query\<close>, which dereferences
  \<^verbatim>\<open>colRef\<close> and panics when it is \<^verbatim>\<open>nil\<close>; then \<^verbatim>\<open>query.Limit(limit)\<close> when
  \<^verbatim>\<open>limit > 0\<close>, and \<^verbatim>\<open>query.Documents(ctx)\<close>. The result is the panic, or what the
  iterator will return.
\<close>

definition Documents :: "env \<Rightarrow> string \<Rightarrow> int \<Rightarrow> panic + (error + docRecord) list" where
  "Documents e name limit =
     (case Collection name of
        None \<Rightarrow> Inl NilDereference
      | Some colRef \<Rightarrow>
          Inr (if 0 < limit then take (nat limit) (stream e name) else stream e name))"

text \<open>
  The read loop: \<^verbatim>\<open>iter.Next()\<close> until \<^verbatim>\<open>iterator.Done\<close> (the end of the list) or an
  error; every key of the snapshot's data goes into \<^verbatim>\<open>fieldSet\<close> (a
  \<^verbatim>\<open>map[string]struct{}\<close>: a set), the snapshot is appended to \<^verbatim>\<open>docs\<close>.
\<close>

fun readLoop ::
  "(error + docRecord) list \<Rightarrow> string set \<Rightarrow> docRecord list
     \<Rightarrow> error + (string set \<times> docRecord list)" where
  "readLoop [] fieldSet docs = Inr (fieldSet, docs)"
| "readLoop (Inl e # rest) fieldSet docs = Inl e"
| "readLoop (Inr snap # rest) fieldSet docs =
     readLoop rest (fieldSet \<union> set (map fst (doc_data snap))) (docs @ [snap])"

text \<open>
  The keys of \<^verbatim>\<open>fieldSet\<close>, collected in the order of a \<^verbatim>\<open>range\<close> over the map and
  then put in order by \<^verbatim>\<open>sort.Strings\<close>: the sorted list of the set.
\<close>

definition sortedFields :: "string set \<Rightarrow> string list" where
  "sortedFields fieldSet = sorted_list_of_set fieldSet"

definition buildHeaders :: "string list \<Rightarrow> string list" where
  "buildHeaders fieldNames = ''__document_id__'' # fieldNames"

text \<open>
  One row: \<^verbatim>\<open>make([]string, len(headers))\<close>, the identifier at index 0, and for the
  \<open>i\<close>-th field the cell at index \<open>i + 1\<close>.
\<close>

definition cell :: "docRecord \<Rightarrow> string \<Rightarrow> string" where
  "cell doc h =
     (case map_of (doc_data doc) h of
        None \<Rightarrow> []
      | Some val \<Rightarrow> if val = VNil then [] else formatValue val)"

definition buildRow :: "string list \<Rightarrow> string list \<Rightarrow> docRecord \<Rightarrow> string list" where
  "buildRow headers fieldNames doc =
     fold (\<lambda>(i, h) row. row[i + 1 := cell doc h]) (enumerate 0 fieldNames)
       ((replicate (length headers) [])[0 := doc_id doc])"

text \<open>\<^verbatim>\<open>w.Write(record)\<close> on the writer of the file at \<open>path\<close>.\<close>

definition Write :: "env \<Rightarrow> string \<Rightarrow> files \<Rightarrow> string list \<Rightarrow> error + files" where
  "Write e path fs record =
     (let rows = (case fs path of None \<Rightarrow> [] | Some rs \<Rightarrow> rs) in
      case write_error e path (length rows) of
        Some x \<Rightarrow> Inl x
      | None \<Rightarrow> Inr (fs(path \<mapsto> rows @ [record])))"

text \<open>The row loop: stops at the first row the writer refuses.\<close>

fun writeRows ::
  "env \<Rightarrow> string \<Rightarrow> string list \<Rightarrow> string list \<Rightarrow> docRecord list \<Rightarrow> files
     \<Rightarrow> error option \<times> files" where
  "writeRows e path headers fieldNames [] fs = (None, fs)"
| "writeRows e path headers fieldNames (doc # docs) fs =
     (case Write e path fs (buildRow headers fieldNames doc) of
        Inl x \<Rightarrow> (Some (WritingRow x), fs)
      | Inr fs' \<Rightarrow> writeRows e path headers fieldNames docs fs')"

definition failure :: "string \<Rightarrow> error \<Rightarrow> exportResult" where
  "failure name x =
     \<lparr>collection = name, docCount = 0, fieldCount = 0, filePath = [], err = Some x\<rparr>"

text \<open>
  \<^verbatim>\<open>exportCollection\<close> of \<^verbatim>\<open>part_001\<close> from the read loop on, for what the iterator
  returns: the outcome and the files after the call. \<^verbatim>\<open>os.Create\<close> truncates the file.
\<close>

definition exportDocs ::
  "env \<Rightarrow> string \<Rightarrow> (error + docRecord) list \<Rightarrow> string \<Rightarrow> files
     \<Rightarrow> exportResult \<times> files" where
  "exportDocs e name iter outputDir fs =
     (case readLoop iter {} [] of
        Inl x \<Rightarrow> (failure name x, fs)
      | Inr (fieldSet, docs) \<Rightarrow>
          if length docs = 0
          then (\<lparr>collection = name, docCount = 0, fieldCount = 0, filePath = [],
                  err = None\<rparr>, fs)
          else
            let fieldNames = sortedFields fieldSet;
                headers = buildHeaders fieldNames;
                path = joinPath e outputDir (name @ ''.csv'')
            in case create_error e path of
                 Some x \<Rightarrow> (failure name (CreatingFile path x), fs)
               | None \<Rightarrow>
                   (case Write e path (fs(path \<mapsto> [])) headers of
                      Inl x \<Rightarrow> (failure name (WritingHeader x), fs(path \<mapsto> []))
                    | Inr fs1 \<Rightarrow>
                        (case writeRows e path headers fieldNames docs fs1 of
                           (Some x, fs2) \<Rightarrow> (failure name x, fs2)
                         | (None, fs2) \<Rightarrow>
                             (\<lparr>collection = name, docCount = length docs,
                               fieldCount = card fieldSet, filePath = path,
                               err = None\<rparr>, fs2))))"

text \<open>
  \<^verbatim>\<open>exportCollection\<close> of \<^verbatim>\<open>part_001\<close>, whole: the panic of its first lines, or the
  outcome and the files.
\<close>

definition exportCollection ::
  "env \<Rightarrow> string \<Rightarrow> int \<Rightarrow> string \<Rightarrow> files \<Rightarrow> panic + exportResult \<times> files" where
  "exportCollection e name limit outputDir fs =
     (case Documents e name limit of
        Inl p \<Rightarrow> Inl p
      | Inr iter \<Rightarrow> Inr (exportDocs e name iter outputDir fs))"

text \<open>
  \<^verbatim>\<open>exportCollection\<close> of \<^verbatim>\<open>main.go\<close>, the earlier revision: the same steps, the result
  an \<^verbatim>\<open>error\<close> only, and the read error wrapped.
\<close>

definition exportDocs_main ::
  "env \<Rightarrow> string \<Rightarrow> (error + docRecord) list \<Rightarrow> string \<Rightarrow> files
     \<Rightarrow> error option \<times> files" where
  "exportDocs_main e name iter outputDir fs =
     (case readLoop iter {} [] of
        Inl x \<Rightarrow> (Some (ReadingCollection name x), fs)
      | Inr (fieldSet, docs) \<Rightarrow>
          if length docs = 0 then (None, fs)
          else
            let fieldNames = sortedFields fieldSet;
                headers = buildHeaders fieldNames;
                path = joinPath e outputDir (name @ ''.csv'')
            in case create_error e path of
                 Some x \<Rightarrow> (Some (CreatingFile path x), fs)
               | None \<Rightarrow>
                   (case Write e path (fs(path \<mapsto> [])) headers of
                      Inl x \<Rightarrow> (Some (WritingHeader x), fs(path \<mapsto> []))
                    | Inr fs1 \<Rightarrow> writeRows e path headers fieldNames docs fs1))"

definition exportCollection_main ::
  "env \<Rightarrow> string \<Rightarrow> int \<Rightarrow> string \<Rightarrow> files \<Rightarrow> panic + error option \<times> files" where
  "exportCollection_main e name limit outputDir fs =
     (case Documents e name limit of
        Inl p \<Rightarrow> Inl p
      | Inr iter \<Rightarrow> Inr (exportDocs_main e name iter outputDir fs))"

section \<open>The export driver: \<^verbatim>\<open>run\<close> and \<^verbatim>\<open>main\<close>\<close>

fun listLoop :: "(error + string) list \<Rightarrow> string list \<Rightarrow> error + string list" where
  "listLoop [] names = Inr names"
| "listLoop (Inl x # rest) names = Inl (ListingCollections x)"
| "listLoop (Inr colID # rest) names = listLoop rest (names @ [colID])"

text \<open>
  \<^verbatim>\<open>resolveCollections\<close>: an explicit list is split at the commas and each part trimmed;
  empty parts are kept.
\<close>

definition resolveCollections :: "env \<Rightarrow> string \<Rightarrow> error + string list" where
  "resolveCollections e flagValue =
     (if flagValue \<noteq> [] then Inr (map (trimSpace e) (Split flagValue (CHR '','')))
      else case listLoop (collectionIDs e) [] of
             Inl x \<Rightarrow> Inl x
           | Inr names \<Rightarrow> if length names = 0 then Inl NoCollectionsFound else Inr names)"

text \<open>
  The loop of \<^verbatim>\<open>run\<close> (\<^verbatim>\<open>part_001\<close>): one call of \<^verbatim>\<open>exportCollection\<close> for each name,
  the result appended to \<^verbatim>\<open>results\<close>. A panic in a call ends the loop and the program.
\<close>

fun exportLoop ::
  "env \<Rightarrow> string list \<Rightarrow> int \<Rightarrow> string \<Rightarrow> exportResult list \<Rightarrow> files
     \<Rightarrow> panic + exportResult list \<times> files" where
  "exportLoop e [] limit output results fs = Inr (results, fs)"
| "exportLoop e (name # names) limit output results fs =
     (case exportCollection e name limit output fs of
        Inl p \<Rightarrow> Inl p
      | Inr (r, fs') \<Rightarrow> exportLoop e names limit output (results @ [r]) fs')"

text \<open>The second loop of \<^verbatim>\<open>run\<close>: the names of the results that carry an error.\<close>

definition failedOf :: "exportResult list \<Rightarrow> string list" where
  "failedOf results = map collection (filter (\<lambda>r. err r \<noteq> None) results)"

text \<open>
  \<^verbatim>\<open>run\<close>: the panic, or its error (\<open>None\<close> is exit status 0, an error makes \<^verbatim>\<open>main\<close>
  exit with status 1), the results handed to \<^verbatim>\<open>printSummaryTable\<close>, and the files.
\<close>

definition run ::
  "env \<Rightarrow> string \<Rightarrow> int \<Rightarrow> string \<Rightarrow> files
     \<Rightarrow> panic + error option \<times> exportResult list \<times> files" where
  "run e collections limit output fs =
     (case mkdirAll e output of
        Some x \<Rightarrow> Inr (Some (FailedOutputDir output x), [], fs)
      | None \<Rightarrow>
          (case newClient e of
             Some x \<Rightarrow> Inr (Some (FailedClient x), [], fs)
           | None \<Rightarrow>
               (case resolveCollections e collections of
                  Inl x \<Rightarrow> Inr (Some (FailedResolve x), [], fs)
                | Inr collNames \<Rightarrow>
                    (case exportLoop e collNames limit output [] fs of
                       Inl p \<Rightarrow> Inl p
                     | Inr (results, fs') \<Rightarrow>
                         let failed = failedOf results in
                         Inr (if 0 < length failed
                              then Some (ExportFailed (length failed)) else None,
                              results, fs')))))"

text \<open>
  The loop of \<^verbatim>\<open>main\<close> (\<^verbatim>\<open>main.go\<close>): the names whose export returned an error are
  appended to \<^verbatim>\<open>failed\<close>.
\<close>

fun mainLoop ::
  "env \<Rightarrow> string list \<Rightarrow> int \<Rightarrow> string \<Rightarrow> string list \<Rightarrow> files
     \<Rightarrow> panic + string list \<times> files" where
  "mainLoop e [] limit output failed fs = Inr (failed, fs)"
| "mainLoop e (name # names) limit output failed fs =
     (case exportCollection_main e name limit output fs of
        Inl p \<Rightarrow> Inl p
      | Inr (Some x, fs') \<Rightarrow> mainLoop e names limit output (failed @ [name]) fs'
      | Inr (None, fs') \<Rightarrow> mainLoop e names limit output failed fs')"

text \<open>
  \<^verbatim>\<open>main\<close> of \<^verbatim>\<open>main.go\<close> after \<^verbatim>\<open>resolveCollections\<close> has returned \<open>collNames\<close>: the
  panic, or the exit status (\<^verbatim>\<open>log.Fatalf\<close> exits with 1) and the files.
\<close>

definition mainExport ::
  "env \<Rightarrow> string list \<Rightarrow> int \<Rightarrow> string \<Rightarrow> files \<Rightarrow> panic + nat \<times> files" where
  "mainExport e collNames limit output fs =
     (case mainLoop e collNames limit output [] fs of
        Inl p \<Rightarrow> Inl p
      | Inr (failed, fs') \<Rightarrow> Inr (if 0 < length failed then 1 else 0, fs'))"

section \<open>Notions used to state the properties\<close>

text \<open>The distinct field names observed across a list of documents.\<close>

definition fieldsOf :: "docRecord list \<Rightarrow> string set" where
  "fieldsOf docs = (\<Union>doc \<in> set docs. set (map fst (doc_data doc)))"

text \<open>
  The row a document should give for a list of columns: the identifier, then for each
  column the normalized value of that field, or the empty string when the document has
  no such field.
\<close>

definition rowOf :: "string list \<Rightarrow> docRecord \<Rightarrow> string list" where
  "rowOf fieldNames doc =
     doc_id doc
     # map (\<lambda>h. case map_of (doc_data doc) h of None \<Rightarrow> [] | Some v \<Rightarrow> formatValue v)
         fieldNames"

text \<open>
  A small world for concrete runs: the two documents of the specification's example
  (collection \<open>users\<close>; \<open>locked\<close> and \<open>full\<close> hold the same two documents), the
  three-document schema example in two arrival orders (\<open>abc\<close>, \<open>cba\<close>), a collection
  whose stream fails after one document (\<open>broken\<close>); every other collection is empty.
  The file of \<open>locked\<close> cannot be created, the writer of \<open>full\<close> refuses the second
  data row; everything else can be created and written.
\<close>

definition usersDocs :: "docRecord list" where
  "usersDocs =
     [\<lparr>doc_id = ''d1'', doc_data = [(''name'', VString ''Alice'')]\<rparr>,
      \<lparr>doc_id = ''d2'', doc_data = [(''name'', VString ''Bob''), (''age'', VInt 30)]\<rparr>]"

definition abcDocs :: "docRecord list" where
  "abcDocs =
     [\<lparr>doc_id = ''x'', doc_data = [(''a'', VInt 1)]\<rparr>,
      \<lparr>doc_id = ''y'', doc_data = [(''b'', VInt 2)]\<rparr>,
      \<lparr>doc_id = ''z'', doc_data = [(''a'', VInt 3), (''c'', VInt 4)]\<rparr>]"

definition world :: env where
  "world =
     \<lparr>stream = (\<lambda>name.
         if name = ''users'' \<or> name = ''locked'' \<or> name = ''full'' then map Inr usersDocs
         else if name = ''abc'' then map Inr abcDocs
         else if name = ''cba'' then map Inr (rev abcDocs)
         else if name = ''broken''
           then [Inr (hd usersDocs), Inl (LibError ''unavailable'')]
         else []),
      create_error = (\<lambda>path.
         if path = ''out/locked.csv'' then Some (LibError ''permission denied'') else None),
      write_error = (\<lambda>path n.
         if path = ''out/full.csv'' \<and> n = 2 then Some (LibError ''no space left'')
         else None),
      joinPath = (\<lambda>dir file. dir @ ''/'' @ file),
      mkdirAll = (\<lambda>dir. None),
      newClient = None,
      collectionIDs = [],
      trimSpace = (\<lambda>s. s)\<rparr>"


text \<open>
  A value with every map listed in key order. A Go map is the same map in whatever order
  a \<^verbatim>\<open>range\<close> loop visits it, so two listings of one Go value differ in the order of
  their maps only, and have the same \<open>canon\<close>.
\<close>

fun canon :: "value \<Rightarrow> value" where
  "canon (VSlice xs) = VSlice (map canon xs)"
| "canon (VMap kvs) = VMap (sort_key fst (map (\<lambda>(k, elem). (k, canon elem)) kvs))"
| "canon v = v"

text \<open>The timestamp \<^verbatim>\<open>2024-01-15T10:30:00.123\<close> UTC.\<close>

definition stamp :: Time where
  "stamp = \<lparr>year = 2024, month = 1, day = 15, hour = 10, minute = 30, second = 0,
             nanosecond = 123000000\<rparr>"

text \<open>
  A value that holds a \<^verbatim>\<open>NaN\<close> or an infinity somewhere, as a number or as a coordinate
  of a geographic point.
\<close>

fun nonFinite :: "value \<Rightarrow> bool" where
  "nonFinite (VFloat f) = (\<not> is_Finite f)"
| "nonFinite (VLatLng la lo) = (\<not> is_Finite la \<or> \<not> is_Finite lo)"
| "nonFinite (VSlice xs) = (\<exists>x\<in>set xs. nonFinite x)"
| "nonFinite (VMap kvs) = (\<exists>kv\<in>set kvs. nonFinite (snd kv))"
| "nonFinite v = False"

text \<open>Two listings of one nested value, the maps visited in different orders.\<close>

definition listing1 :: "value" where
  "listing1 =
     VMap [(''tags'', VSlice [VMap [(''y'', VNil), (''x'', VBool True)]]), (''id'', VInt 7)]"

definition listing2 :: "value" where
  "listing2 =
     VMap [(''id'', VInt 7), (''tags'', VSlice [VMap [(''x'', VBool True), (''y'', VNil)]])]"

section \<open>Reading and writing: facts about the loops\<close>

lemma finite_fieldsOf: "finite (fieldsOf docs)"
  by (simp add: fieldsOf_def)

lemma readLoop_snapshots:
  "readLoop (map Inr docs) F acc = Inr (F \<union> fieldsOf docs, acc @ docs)"
proof (induction docs arbitrary: F acc)
  case Nil
  show ?case by (simp add: fieldsOf_def)
next
  case (Cons doc docs)
  have "fieldsOf (doc # docs) = set (map fst (doc_data doc)) \<union> fieldsOf docs"
    by (simp add: fieldsOf_def)
  then show ?case using Cons.IH by (simp add: Un_assoc)
qed

lemma readLoop_error:
  "readLoop (map Inr docs @ Inl x # rest) F acc = Inl x"
  by (induction docs arbitrary: F acc) simp_all

lemma length_sortedFields: "finite F \<Longrightarrow> length (sortedFields F) = card F"
  by (simp add: sortedFields_def)

text \<open>
  A missing field and a \<^verbatim>\<open>nil\<close> value give the same cell, because \<^verbatim>\<open>formatValue\<close> of
  \<^verbatim>\<open>nil\<close> is the empty string too.
\<close>

lemma cell_formatValue:
  "cell doc h = (case map_of (doc_data doc) h of None \<Rightarrow> [] | Some v \<Rightarrow> formatValue v)"
  by (simp add: cell_def split: option.split)

text \<open>The indexed assignments of the row loop fill the cells from left to right.\<close>

lemma fold_update_cells:
  "n + length hs < length row \<Longrightarrow>
   fold (\<lambda>(i, h) row. row[i + 1 := f h]) (enumerate n hs) row
     = take (Suc n) row @ map f hs @ drop (Suc n + length hs) row"
proof (induction hs arbitrary: n row)
  case Nil
  then show ?case by simp
next
  case (Cons h hs)
  let ?row = "row[Suc n := f h]"
  have len: "Suc n + length hs < length ?row" using Cons.prems by simp
  have "fold (\<lambda>(i, h) row. row[i + 1 := f h]) (enumerate n (h # hs)) row
        = fold (\<lambda>(i, h) row. row[i + 1 := f h]) (enumerate (Suc n) hs) ?row"
    by simp
  also have "\<dots> = take (Suc (Suc n)) ?row @ map f hs @ drop (Suc (Suc n) + length hs) ?row"
    using Cons.IH [OF len] .
  also have "take (Suc (Suc n)) ?row = take (Suc n) row @ [f h]"
    using Cons.prems by (simp add: take_Suc_conv_app_nth [of "Suc n"])
  also have "drop (Suc (Suc n) + length hs) ?row = drop (Suc n + length (h # hs)) row"
    by simp
  finally show ?case by simp
qed

lemma buildRow_rowOf:
  "buildRow (buildHeaders fieldNames) fieldNames doc = rowOf fieldNames doc"
proof -
  let ?row = "(replicate (length (buildHeaders fieldNames)) [])[0 := doc_id doc]"
  have "0 + length fieldNames < length ?row" by (simp add: buildHeaders_def)
  from fold_update_cells [OF this, of "cell doc"]
  show ?thesis
    by (simp add: buildRow_def rowOf_def buildHeaders_def cell_formatValue)
qed

lemma length_rowOf: "length (rowOf fieldNames doc) = Suc (length fieldNames)"
  by (simp add: rowOf_def)

text \<open>
  The row loop appends the rows of a prefix of the documents, and reports no error
  exactly when the prefix is all of them.
\<close>

lemma writeRows_prefix:
  "fs path = Some rows0 \<Longrightarrow> writeRows e path headers fns docs fs = (x, fs') \<Longrightarrow>
   \<exists>k\<le>length docs. fs' = fs(path \<mapsto> rows0 @ map (buildRow headers fns) (take k docs))
      \<and> (x = None \<longleftrightarrow> k = length docs)"
proof (induction docs arbitrary: fs rows0)
  case Nil
  then have "fs' = fs(path \<mapsto> rows0)" "x = None" by auto
  then show ?case by simp
next
  case (Cons doc docs)
  show ?case
  proof (cases "write_error e path (length rows0)")
    case (Some y)
    with Cons.prems have "x = Some (WritingRow y)" "fs' = fs"
      by (simp_all add: Write_def)
    moreover have "fs = fs(path \<mapsto> rows0)" using Cons.prems(1) by auto
    ultimately show ?thesis by (intro exI [of _ 0]) simp
  next
    case None
    let ?fs1 = "fs(path \<mapsto> rows0 @ [buildRow headers fns doc])"
    from None Cons.prems have run: "writeRows e path headers fns docs ?fs1 = (x, fs')"
      by (simp add: Write_def)
    have "?fs1 path = Some (rows0 @ [buildRow headers fns doc])" by simp
    from Cons.IH [OF this run] obtain k where k: "k \<le> length docs"
      "fs' = ?fs1(path \<mapsto> (rows0 @ [buildRow headers fns doc]) @ map (buildRow headers fns) (take k docs))"
      "x = None \<longleftrightarrow> k = length docs" by blast
    show ?thesis
      by (intro exI [of _ "Suc k"]) (use k in simp)
  qed
qed


text \<open>
  When the collection reference is not \<^verbatim>\<open>nil\<close> both revisions of \<^verbatim>\<open>exportCollection\<close>
  return, with what the steps after the iterator give; otherwise both panic.
\<close>

lemma panic_unique: "(p :: panic) = NilDereference"
  by (cases p) simp

lemma Documents_Inr:
  "Collection name \<noteq> None \<Longrightarrow> \<exists>iter. Documents e name limit = Inr iter"
  by (auto simp: Documents_def)

lemma Documents_Inl:
  "Collection name = None \<Longrightarrow> Documents e name limit = Inl NilDereference"
  by (simp add: Documents_def)

lemma Documents_valid:
  "Documents e name limit = Inr iter \<Longrightarrow> Collection name \<noteq> None"
  by (auto simp: Documents_def split: option.splits)

lemma exportCollection_Inr:
  "Documents e name limit = Inr iter \<Longrightarrow>
     exportCollection e name limit outputDir fs = Inr (exportDocs e name iter outputDir fs)"
  by (simp add: exportCollection_def)

lemma exportCollection_main_Inr:
  "Documents e name limit = Inr iter \<Longrightarrow>
     exportCollection_main e name limit outputDir fs
       = Inr (exportDocs_main e name iter outputDir fs)"
  by (simp add: exportCollection_main_def)

lemma exportCollection_Inl:
  "Collection name = None \<Longrightarrow>
     exportCollection e name limit outputDir fs = Inl NilDereference
     \<and> exportCollection_main e name limit outputDir fs = Inl NilDereference"
  by (simp add: exportCollection_def exportCollection_main_def Documents_Inl)

text \<open>
  The earlier revision in \<^verbatim>\<open>main.go\<close> writes the same files as the later one and fails
  in the same cases.
\<close>

lemma exportDocs_main_files:
  "snd (exportDocs_main e name iter outputDir fs) = snd (exportDocs e name iter outputDir fs)"
  by (simp add: exportDocs_main_def exportDocs_def Let_def
      split: sum.split prod.split option.split)

lemma exportDocs_main_error:
  "fst (exportDocs_main e name iter outputDir fs) = None
     \<longleftrightarrow> err (fst (exportDocs e name iter outputDir fs)) = None"
  by (simp add: exportDocs_main_def exportDocs_def Let_def failure_def
      split: sum.split prod.split option.split)

lemma exportDocs_collection:
  "collection (fst (exportDocs e name iter outputDir fs)) = name"
  by (simp add: exportDocs_def Let_def failure_def
      split: sum.split prod.split option.split)

lemma exportCollection_both:
  assumes "Documents e name limit = Inr iter"
  shows "\<exists>r x fs'. exportCollection e name limit outputDir fs = Inr (r, fs')
           \<and> exportCollection_main e name limit outputDir fs = Inr (x, fs')
           \<and> (r, fs') = exportDocs e name iter outputDir fs
           \<and> (x = None \<longleftrightarrow> err r = None) \<and> collection r = name"
proof -
  let ?p = "exportDocs e name iter outputDir fs"
  let ?m = "exportDocs_main e name iter outputDir fs"
  have "exportCollection e name limit outputDir fs = Inr (fst ?p, snd ?p)"
    using exportCollection_Inr [OF assms] by simp
  moreover have "exportCollection_main e name limit outputDir fs = Inr (fst ?m, snd ?p)"
    using exportCollection_main_Inr [OF assms, of outputDir fs]
      exportDocs_main_files [of e name iter outputDir fs]
    by (metis prod.collapse)
  moreover have "fst ?m = None \<longleftrightarrow> err (fst ?p) = None"
    by (rule exportDocs_main_error)
  moreover have "collection (fst ?p) = name"
    by (rule exportDocs_collection)
  ultimately show ?thesis
    by (intro exI [of _ "fst ?p"] exI [of _ "fst ?m"] exI [of _ "snd ?p"]) simp
qed

text \<open>
  What a collection's file holds once the file could be created: a prefix of the header
  followed by the rows of the documents in read order; all of it exactly when the export
  reports no error.
\<close>

lemma exportDocs_rows:
  assumes "docs \<noteq> []"
    and "path = joinPath e outputDir (name @ ''.csv'')"
    and "create_error e path = None"
  shows "\<exists>k\<le>Suc (length docs).
           snd (exportDocs e name (map Inr docs) outputDir fs) path
             = Some (take k (buildHeaders (sortedFields (fieldsOf docs))
                             # map (rowOf (sortedFields (fieldsOf docs))) docs))
           \<and> (err (fst (exportDocs e name (map Inr docs) outputDir fs)) = None
                \<longleftrightarrow> k = Suc (length docs))
           \<and> (write_error e path 0 = None \<longrightarrow> 0 < k)"
proof -
  let ?fns = "sortedFields (fieldsOf docs)"
  let ?hd = "buildHeaders ?fns"
  have rl: "readLoop (map Inr docs) {} [] = Inr (fieldsOf docs, docs)"
    using readLoop_snapshots [of docs "{}" "[]"] by simp
  show ?thesis
  proof (cases "write_error e path 0")
    case (Some y)
    then have "exportDocs e name (map Inr docs) outputDir fs
                = (failure name (WritingHeader y), fs(path \<mapsto> []))"
      using rl assms by (simp add: exportDocs_def Write_def Let_def)
    then show ?thesis using Some by (intro exI [of _ 0]) (simp add: failure_def)
  next
    case None
    let ?fs1 = "fs(path \<mapsto> [?hd])"
    have w: "Write e path (fs(path \<mapsto> [])) ?hd = Inr ?fs1"
      using None by (simp add: Write_def)
    obtain x fs2 where wr: "writeRows e path ?hd ?fns docs ?fs1 = (x, fs2)"
      by (cases "writeRows e path ?hd ?fns docs ?fs1")
    have "?fs1 path = Some [?hd]" by simp
    from writeRows_prefix [OF this wr] obtain k where k: "k \<le> length docs"
      "fs2 = ?fs1(path \<mapsto> [?hd] @ map (buildRow ?hd ?fns) (take k docs))"
      "x = None \<longleftrightarrow> k = length docs" by blast
    have ex: "snd (exportDocs e name (map Inr docs) outputDir fs) = fs2
          \<and> (err (fst (exportDocs e name (map Inr docs) outputDir fs)) = None \<longleftrightarrow> x = None)"
      using rl assms w wr
      by (cases x) (simp_all add: exportDocs_def Let_def failure_def)
    have "map (buildRow ?hd ?fns) (take k docs) = map (rowOf ?fns) (take k docs)"
      by (simp add: buildRow_rowOf)
    then show ?thesis using ex k
      by (intro exI [of _ "Suc k"]) (simp add: take_map)
  qed
qed

lemma exportCollection_rows:
  assumes "Documents e name limit = Inr (map Inr docs)" and "docs \<noteq> []"
    and "path = joinPath e outputDir (name @ ''.csv'')"
    and "create_error e path = None"
  shows "\<exists>r x fs' k.
           exportCollection e name limit outputDir fs = Inr (r, fs')
           \<and> exportCollection_main e name limit outputDir fs = Inr (x, fs')
           \<and> (x = None \<longleftrightarrow> err r = None)
           \<and> k \<le> Suc (length docs)
           \<and> fs' path = Some (take k (buildHeaders (sortedFields (fieldsOf docs))
                                       # map (rowOf (sortedFields (fieldsOf docs))) docs))
           \<and> (err r = None \<longleftrightarrow> k = Suc (length docs))
           \<and> (write_error e path 0 = None \<longrightarrow> 0 < k)"
proof -
  from exportCollection_both [OF assms(1), of outputDir fs] obtain r x fs' where
    a: "exportCollection e name limit outputDir fs = Inr (r, fs')"
    and b: "exportCollection_main e name limit outputDir fs = Inr (x, fs')"
    and c: "(r, fs') = exportDocs e name (map Inr docs) outputDir fs"
    and d: "x = None \<longleftrightarrow> err r = None"
    by (elim exE conjE)
  from c have r: "fst (exportDocs e name (map Inr docs) outputDir fs) = r"
    and f: "snd (exportDocs e name (map Inr docs) outputDir fs) = fs'"
    by (simp_all add: c [symmetric])
  from exportDocs_rows [OF assms(2-4), of fs] obtain k where
    k: "k \<le> Suc (length docs)"
    "fs' path = Some (take k (buildHeaders (sortedFields (fieldsOf docs))
                              # map (rowOf (sortedFields (fieldsOf docs))) docs))"
    "err r = None \<longleftrightarrow> k = Suc (length docs)"
    "write_error e path 0 = None \<longrightarrow> 0 < k"
    unfolding r f by (elim exE conjE)
  from a b d k show ?thesis
    by (intro exI [of _ r] exI [of _ x] exI [of _ fs'] exI [of _ k] conjI)
qed

section \<open>The collection exporter: empty collections and rows\<close>

text \<open>
  C8. A collection whose document stream ends without yielding a document is skipped:
  no file is created or changed, and the outcome is a success with document count 0,
  field count 0 and no file path. In the earlier revision the call returns no error.
\<close>

theorem empty_collection_skipped:
  assumes "Documents e name limit = Inr []"
  shows "exportCollection e name limit outputDir fs
           = Inr (\<lparr>collection = name, docCount = 0, fieldCount = 0, filePath = [],
                   err = None\<rparr>, fs)
         \<and> exportCollection_main e name limit outputDir fs = Inr (None, fs)"
  using assms
  by (simp add: exportCollection_def exportCollection_main_def exportDocs_def
      exportDocs_main_def)

theorem empty_collection_skipped_witness:
  "Documents world ''ghosts'' 0 = Inr []
   \<and> exportCollection world ''ghosts'' 0 ''out'' Map.empty
       = Inr (\<lparr>collection = ''ghosts'', docCount = 0, fieldCount = 0, filePath = [],
               err = None\<rparr>, Map.empty)
   \<and> exportCollection_main world ''ghosts'' 0 ''out'' Map.empty = Inr (None, Map.empty)"
proof -
  have "Documents world ''ghosts'' 0 = Inr []"
    by (simp add: Documents_def Collection_def world_def)
  with empty_collection_skipped [of world "''ghosts''" 0 "''out''" Map.empty]
  show ?thesis by simp
qed

lemma world_users:
  "Documents world ''users'' 0 = Inr (map Inr usersDocs)"
  by (simp add: Documents_def Collection_def world_def)


text \<open>
  C10. Once the file of a non-empty collection has been created, every row in it (the
  header and the data rows) has 1 + the number of distinct field names cells, whatever
  fields the single documents have; and every row the loop builds, written or refused,
  is as long as the header. Both revisions of \<^verbatim>\<open>exportCollection\<close> return and leave
  the same files.
\<close>

theorem rows_as_wide_as_header:
  assumes "Documents e name limit = Inr (map Inr docs)" and "docs \<noteq> []"
    and "path = joinPath e outputDir (name @ ''.csv'')"
    and "create_error e path = None"
  shows "(\<exists>r x fs' rows.
            exportCollection e name limit outputDir fs = Inr (r, fs')
            \<and> exportCollection_main e name limit outputDir fs = Inr (x, fs')
            \<and> fs' path = Some rows
            \<and> (\<forall>row\<in>set rows. length row = 1 + card (fieldsOf docs)))
         \<and> (\<forall>doc. length (buildRow (buildHeaders (sortedFields (fieldsOf docs)))
                             (sortedFields (fieldsOf docs)) doc)
                   = length (buildHeaders (sortedFields (fieldsOf docs))))"
proof -
  let ?fns = "sortedFields (fieldsOf docs)"
  let ?all = "buildHeaders ?fns # map (rowOf ?fns) docs"
  from exportCollection_rows [OF assms, of fs] obtain r x fs' k where
    a: "exportCollection e name limit outputDir fs = Inr (r, fs')"
    and b: "exportCollection_main e name limit outputDir fs = Inr (x, fs')"
    and k: "fs' path = Some (take k ?all)"
    by (elim exE conjE)
  have "length row = 1 + card (fieldsOf docs)" if "row \<in> set ?all" for row
    using that by (auto simp: buildHeaders_def length_rowOf length_sortedFields finite_fieldsOf)
  then have w: "\<forall>row\<in>set (take k ?all). length row = 1 + card (fieldsOf docs)"
    by (blast dest: in_set_takeD)
  have first: "\<exists>r x fs' rows.
            exportCollection e name limit outputDir fs = Inr (r, fs')
            \<and> exportCollection_main e name limit outputDir fs = Inr (x, fs')
            \<and> fs' path = Some rows
            \<and> (\<forall>row\<in>set rows. length row = 1 + card (fieldsOf docs))"
    using a b k w
    by (intro exI [of _ r] exI [of _ x] exI [of _ fs'] exI [of _ "take k ?all"] conjI)
  have "length (buildRow (buildHeaders ?fns) ?fns doc) = length (buildHeaders ?fns)"
    for doc unfolding buildRow_rowOf by (simp add: length_rowOf buildHeaders_def)
  with first show ?thesis by (intro conjI allI)
qed

theorem rows_as_wide_as_header_witness:
  "Documents world ''users'' 0 = Inr (map Inr usersDocs) \<and> usersDocs \<noteq> []
   \<and> create_error world (joinPath world ''out'' (''users'' @ ''.csv'')) = None
   \<and> (\<exists>r x fs' rows.
          exportCollection world ''users'' 0 ''out'' Map.empty = Inr (r, fs')
          \<and> exportCollection_main world ''users'' 0 ''out'' Map.empty = Inr (x, fs')
          \<and> fs' (joinPath world ''out'' (''users'' @ ''.csv'')) = Some rows
          \<and> (\<forall>row\<in>set rows. length row = 1 + card (fieldsOf usersDocs)))"
proof -
  have a: "Documents world ''users'' 0 = Inr (map Inr usersDocs)" by (rule world_users)
  have b: "usersDocs \<noteq> []" by (simp add: usersDocs_def)
  have d: "create_error world (joinPath world ''out'' (''users'' @ ''.csv'')) = None"
    by (simp add: world_def)
  from rows_as_wide_as_header [OF a b refl d, of Map.empty]
  have "\<exists>r x fs' rows.
          exportCollection world ''users'' 0 ''out'' Map.empty = Inr (r, fs')
          \<and> exportCollection_main world ''users'' 0 ''out'' Map.empty = Inr (x, fs')
          \<and> fs' (joinPath world ''out'' (''users'' @ ''.csv'')) = Some rows
          \<and> (\<forall>row\<in>set rows. length row = 1 + card (fieldsOf usersDocs))"
    by (rule conjunct1)
  with a b d show ?thesis by (intro conjI)
qed



section \<open>The schema: the header row\<close>

lemma fieldsOf_mset: "mset docs' = mset docs \<Longrightarrow> fieldsOf docs' = fieldsOf docs"
  using mset_eq_setD [of docs' docs] by (simp add: fieldsOf_def)

lemma exportCollection_header:
  assumes "Documents e name limit = Inr (map Inr docs)" and "docs \<noteq> []"
    and "path = joinPath e outputDir (name @ ''.csv'')"
    and "create_error e path = None" and "write_error e path 0 = None"
  shows "\<exists>r x fs' rows.
           exportCollection e name limit outputDir fs = Inr (r, fs')
           \<and> exportCollection_main e name limit outputDir fs = Inr (x, fs')
           \<and> fs' path = Some ((''__document_id__'' # sorted_list_of_set (fieldsOf docs)) # rows)"
proof -
  let ?hd = "buildHeaders (sortedFields (fieldsOf docs))"
  let ?rows = "map (rowOf (sortedFields (fieldsOf docs))) docs"
  from exportCollection_rows [OF assms(1-4), of fs] obtain r x fs' k where
    a: "exportCollection e name limit outputDir fs = Inr (r, fs')"
    and b: "exportCollection_main e name limit outputDir fs = Inr (x, fs')"
    and k: "fs' path = Some (take k (?hd # ?rows))"
    and pos: "write_error e path 0 = None \<longrightarrow> 0 < k"
    by (elim exE conjE)
  from pos assms(5) have "0 < k" by (rule mp)
  then obtain j where "k = Suc j" by (cases k) simp_all
  then have "take k (?hd # ?rows) = ?hd # take j ?rows" by simp
  then have "fs' path = Some (?hd # take j ?rows)"
    using k by (rule_tac trans) simp_all
  moreover have "?hd = ''__document_id__'' # sorted_list_of_set (fieldsOf docs)"
    by (simp add: buildHeaders_def sortedFields_def)
  ultimately have "fs' path
      = Some ((''__document_id__'' # sorted_list_of_set (fieldsOf docs)) # take j ?rows)"
    by (rule_tac trans) simp_all
  with a b show ?thesis
    by (intro exI [of _ r] exI [of _ x] exI [of _ fs'] exI [of _ "take j ?rows"] conjI)
qed

lemma fieldsOf_abcDocs: "fieldsOf abcDocs = {''a'', ''b'', ''c''}"
  by (auto simp: fieldsOf_def abcDocs_def)

text \<open>
  C4. For a non-empty collection whose file could be created and whose header could be
  written, the first row of the file is \<^verbatim>\<open>__document_id__\<close> followed by the distinct field
  names observed across all read documents in ascending byte-wise order (a sorted list
  without repetitions whose elements are exactly those names); and an export that reads
  the same documents in any other order writes the same header. This holds of both
  revisions of \<^verbatim>\<open>exportCollection\<close>, which leave the same files.
\<close>

theorem header_sorted_union_any_order:
  assumes "Documents e name limit = Inr (map Inr docs)" and "docs \<noteq> []"
    and "path = joinPath e outputDir (name @ ''.csv'')"
    and "create_error e path = None" and "write_error e path 0 = None"
    and "Documents e' name' limit' = Inr (map Inr docs')" and "mset docs' = mset docs"
    and "path' = joinPath e' outputDir' (name' @ ''.csv'')"
    and "create_error e' path' = None" and "write_error e' path' 0 = None"
  shows "\<exists>fieldNames r x fs1 rows r' x' fs1' rows'.
           sorted fieldNames \<and> distinct fieldNames \<and> set fieldNames = fieldsOf docs
           \<and> exportCollection e name limit outputDir fs = Inr (r, fs1)
           \<and> exportCollection_main e name limit outputDir fs = Inr (x, fs1)
           \<and> fs1 path = Some ((''__document_id__'' # fieldNames) # rows)
           \<and> exportCollection e' name' limit' outputDir' fs' = Inr (r', fs1')
           \<and> exportCollection_main e' name' limit' outputDir' fs' = Inr (x', fs1')
           \<and> fs1' path' = Some ((''__document_id__'' # fieldNames) # rows')"
proof -
  let ?fns = "sorted_list_of_set (fieldsOf docs)"
  have ne: "docs' \<noteq> []" using assms(2,7) by auto
  have same: "fieldsOf docs' = fieldsOf docs" using assms(7) by (rule fieldsOf_mset)
  from exportCollection_header [OF assms(1-5), of fs] obtain r x fs1 rows where
    a: "exportCollection e name limit outputDir fs = Inr (r, fs1)"
    and b: "exportCollection_main e name limit outputDir fs = Inr (x, fs1)"
    and c: "fs1 path = Some ((''__document_id__'' # ?fns) # rows)"
    by (elim exE conjE)
  from exportCollection_header [OF assms(6) ne assms(8-10), of fs']
  obtain r' x' fs1' rows' where
    a': "exportCollection e' name' limit' outputDir' fs' = Inr (r', fs1')"
    and b': "exportCollection_main e' name' limit' outputDir' fs' = Inr (x', fs1')"
    and c': "fs1' path' = Some ((''__document_id__'' # ?fns) # rows')"
    unfolding same by (elim exE conjE)
  have "sorted ?fns" "distinct ?fns" "set ?fns = fieldsOf docs"
    by (simp_all add: finite_fieldsOf)
  with a b c a' b' c' show ?thesis
    by (intro exI [of _ ?fns] exI [of _ r] exI [of _ x] exI [of _ fs1] exI [of _ rows]
        exI [of _ r'] exI [of _ x'] exI [of _ fs1'] exI [of _ rows'] conjI)
qed

theorem header_sorted_union_any_order_witness:
  "Documents world ''abc'' 0 = Inr (map Inr abcDocs) \<and> abcDocs \<noteq> []
   \<and> create_error world (joinPath world ''out'' (''abc'' @ ''.csv'')) = None
   \<and> write_error world (joinPath world ''out'' (''abc'' @ ''.csv'')) 0 = None
   \<and> Documents world ''cba'' 0 = Inr (map Inr (rev abcDocs))
   \<and> mset (rev abcDocs) = mset abcDocs
   \<and> create_error world (joinPath world ''out'' (''cba'' @ ''.csv'')) = None
   \<and> write_error world (joinPath world ''out'' (''cba'' @ ''.csv'')) 0 = None
   \<and> (\<exists>r x fs1 rows r' x' fs1' rows'.
         exportCollection world ''abc'' 0 ''out'' Map.empty = Inr (r, fs1)
       \<and> exportCollection_main world ''abc'' 0 ''out'' Map.empty = Inr (x, fs1)
       \<and> fs1 (joinPath world ''out'' (''abc'' @ ''.csv''))
           = Some ([''__document_id__'', ''a'', ''b'', ''c''] # rows)
       \<and> exportCollection world ''cba'' 0 ''out'' Map.empty = Inr (r', fs1')
       \<and> exportCollection_main world ''cba'' 0 ''out'' Map.empty = Inr (x', fs1')
       \<and> fs1' (joinPath world ''out'' (''cba'' @ ''.csv''))
           = Some ([''__document_id__'', ''a'', ''b'', ''c''] # rows'))"
proof -
  have a: "Documents world ''abc'' 0 = Inr (map Inr abcDocs)"
    by (simp add: Documents_def Collection_def world_def)
  have b: "abcDocs \<noteq> []" by (simp add: abcDocs_def)
  have c: "create_error world (joinPath world ''out'' (''abc'' @ ''.csv'')) = None"
    by (simp add: world_def)
  have d: "write_error world (joinPath world ''out'' (''abc'' @ ''.csv'')) 0 = None"
    by (simp add: world_def)
  have a': "Documents world ''cba'' 0 = Inr (map Inr (rev abcDocs))"
    by (simp add: Documents_def Collection_def world_def)
  have m: "mset (rev abcDocs) = mset abcDocs" by simp
  have c': "create_error world (joinPath world ''out'' (''cba'' @ ''.csv'')) = None"
    by (simp add: world_def)
  have d': "write_error world (joinPath world ''out'' (''cba'' @ ''.csv'')) 0 = None"
    by (simp add: world_def)
  from header_sorted_union_any_order [OF a b refl c d a' m refl c' d', of Map.empty Map.empty]
  obtain fieldNames r x fs1 rows r' x' fs1' rows' where
    f: "sorted fieldNames" "distinct fieldNames" "set fieldNames = fieldsOf abcDocs"
    and r1: "exportCollection world ''abc'' 0 ''out'' Map.empty = Inr (r, fs1)"
    and r2: "exportCollection_main world ''abc'' 0 ''out'' Map.empty = Inr (x, fs1)"
    and r3: "fs1 (joinPath world ''out'' (''abc'' @ ''.csv''))
           = Some ((''__document_id__'' # fieldNames) # rows)"
    and s1: "exportCollection world ''cba'' 0 ''out'' Map.empty = Inr (r', fs1')"
    and s2: "exportCollection_main world ''cba'' 0 ''out'' Map.empty = Inr (x', fs1')"
    and s3: "fs1' (joinPath world ''out'' (''cba'' @ ''.csv''))
           = Some ((''__document_id__'' # fieldNames) # rows')"
    by (elim exE conjE)
  have "sorted [''a'', ''b'', ''c'']" "distinct [''a'', ''b'', ''c'']"
    "set [''a'', ''b'', ''c''] = fieldsOf abcDocs"
    by (simp_all add: fieldsOf_abcDocs)
  with f have fn: "fieldNames = [''a'', ''b'', ''c'']"
    by (intro sorted_distinct_set_unique) simp_all
  from r3 have r3': "fs1 (joinPath world ''out'' (''abc'' @ ''.csv''))
           = Some ([''__document_id__'', ''a'', ''b'', ''c''] # rows)"
    unfolding fn .
  from s3 have s3': "fs1' (joinPath world ''out'' (''cba'' @ ''.csv''))
           = Some ([''__document_id__'', ''a'', ''b'', ''c''] # rows')"
    unfolding fn .
  from r1 r2 r3' s1 s2 s3' have "\<exists>r x fs1 rows r' x' fs1' rows'.
         exportCollection world ''abc'' 0 ''out'' Map.empty = Inr (r, fs1)
       \<and> exportCollection_main world ''abc'' 0 ''out'' Map.empty = Inr (x, fs1)
       \<and> fs1 (joinPath world ''out'' (''abc'' @ ''.csv''))
           = Some ([''__document_id__'', ''a'', ''b'', ''c''] # rows)
       \<and> exportCollection world ''cba'' 0 ''out'' Map.empty = Inr (r', fs1')
       \<and> exportCollection_main world ''cba'' 0 ''out'' Map.empty = Inr (x', fs1')
       \<and> fs1' (joinPath world ''out'' (''cba'' @ ''.csv''))
           = Some ([''__document_id__'', ''a'', ''b'', ''c''] # rows')"
    by (intro exI [of _ r] exI [of _ x] exI [of _ fs1] exI [of _ rows]
        exI [of _ r'] exI [of _ x'] exI [of _ fs1'] exI [of _ rows'] conjI)
  with a b c d a' m c' d' show ?thesis by (intro conjI)
qed

section \<open>The export driver\<close>

lemma failedOf_empty: "failedOf results = [] \<longleftrightarrow> (\<forall>r\<in>set results. err r = None)"
  by (auto simp: failedOf_def filter_empty_conv)

text \<open>
  When every name gives a collection reference, the loop of \<^verbatim>\<open>run\<close> and the loop of
  \<^verbatim>\<open>main.go\<close> run to the end: one outcome is appended for each name, in order, the
  files are the same, and \<^verbatim>\<open>failed\<close> gains the names whose outcome carries an error.
\<close>

lemma loops_valid:
  assumes "\<forall>name\<in>set names. Collection name \<noteq> None"
  shows "\<exists>new fs'.
           exportLoop e names limit output results fs = Inr (results @ new, fs')
           \<and> mainLoop e names limit output failed fs = Inr (failed @ failedOf new, fs')
           \<and> map collection new = names
           \<and> (\<forall>i<length names. \<exists>fs_i fs_j.
                  exportCollection e (names ! i) limit output fs_i = Inr (new ! i, fs_j))"
  using assms
proof (induction names arbitrary: results failed fs)
  case Nil
  show ?case by (simp add: failedOf_def)
next
  case (Cons name names)
  from Cons.prems have valid: "Collection name \<noteq> None"
    and rest: "\<forall>n\<in>set names. Collection n \<noteq> None" by simp_all
  from Documents_Inr [OF valid] obtain iter where it: "Documents e name limit = Inr iter" ..
  from exportCollection_both [OF it, of "output" fs] obtain r x fs1 where
    a: "exportCollection e name limit output fs = Inr (r, fs1)"
    and b: "exportCollection_main e name limit output fs = Inr (x, fs1)"
    and d: "x = None \<longleftrightarrow> err r = None"
    and c: "collection r = name"
    by (elim exE conjE)
  define failed1 where "failed1 = (if x = None then failed else failed @ [name])"
  from Cons.IH [OF rest, of "results @ [r]" fs1 failed1] obtain new fs' where
    l: "exportLoop e names limit output (results @ [r]) fs1 = Inr ((results @ [r]) @ new, fs')"
    and m: "mainLoop e names limit output failed1 fs1 = Inr (failed1 @ failedOf new, fs')"
    and n: "map collection new = names"
    and o: "\<forall>i<length names. \<exists>fs_i fs_j.
              exportCollection e (names ! i) limit output fs_i = Inr (new ! i, fs_j)"
    by (elim exE conjE)
  have 1: "exportLoop e (name # names) limit output results fs = Inr (results @ r # new, fs')"
    using a l by simp
  have f: "failed1 @ failedOf new = failed @ failedOf (r # new)"
    using c d by (cases x) (simp_all add: failedOf_def failed1_def)
  have "mainLoop e (name # names) limit output failed fs
          = mainLoop e names limit output failed1 fs1"
    using b by (cases x) (simp_all add: failed1_def)
  then have 2: "mainLoop e (name # names) limit output failed fs
                  = Inr (failed @ failedOf (r # new), fs')"
    using m f by simp
  have 3: "map collection (r # new) = name # names" using c n by simp
  have 4: "\<exists>fs_i fs_j. exportCollection e ((name # names) ! i) limit output fs_i
                         = Inr ((r # new) ! i, fs_j)"
    if "i < length (name # names)" for i
  proof (cases i)
    case 0
    with a show ?thesis by auto
  next
    case (Suc j)
    with that o show ?thesis by simp
  qed
  from 4 have 5: "\<forall>i<length (name # names). \<exists>fs_i fs_j.
      exportCollection e ((name # names) ! i) limit output fs_i = Inr ((r # new) ! i, fs_j)"
    by (intro allI impI)
  have "exportLoop e (name # names) limit output results fs = Inr (results @ r # new, fs')
      \<and> mainLoop e (name # names) limit output failed fs
          = Inr (failed @ failedOf (r # new), fs')
      \<and> map collection (r # new) = name # names
      \<and> (\<forall>i<length (name # names). \<exists>fs_i fs_j.
            exportCollection e ((name # names) ! i) limit output fs_i
              = Inr ((r # new) ! i, fs_j))"
    using 1 2 3 5 by (intro conjI)
  then show ?case
    by (rule_tac x = "r # new" in exI, rule_tac x = fs' in exI)
qed

text \<open>
  When some name gives no collection reference, both loops end in the panic of the call
  for the first such name.
\<close>

lemma loops_invalid:
  assumes "\<exists>name\<in>set names. Collection name = None"
  shows "exportLoop e names limit output results fs = Inl NilDereference
         \<and> mainLoop e names limit output failed fs = Inl NilDereference"
  using assms
proof (induction names arbitrary: results failed fs)
  case Nil
  then show ?case by simp
next
  case (Cons name names)
  show ?case
  proof (cases "Collection name = None")
    case True
    from exportCollection_Inl [OF True, of e limit "output" fs] show ?thesis by simp
  next
    case False
    with Cons.prems have rest: "\<exists>n\<in>set names. Collection n = None" by simp
    from Documents_Inr [OF False] obtain iter where it: "Documents e name limit = Inr iter" ..
    from exportCollection_both [OF it, of "output" fs] obtain r x fs1 where
      a: "exportCollection e name limit output fs = Inr (r, fs1)"
      and b: "exportCollection_main e name limit output fs = Inr (x, fs1)"
      by (elim exE conjE)
    have "exportLoop e (name # names) limit output results fs = Inl NilDereference"
      using a Cons.IH [OF rest, of "results @ [r]" fs1 failed] by simp
    moreover have "mainLoop e (name # names) limit output failed fs = Inl NilDereference"
      using b Cons.IH [OF rest, of results fs1 failed]
        Cons.IH [OF rest, of results fs1 "failed @ [name]"]
      by (cases x) simp_all
    ultimately show ?thesis by (intro conjI)
  qed
qed

text \<open>
  Failure isolation for names that give a collection reference: when the setup has
  succeeded and every resolved name is a collection path (an odd number of non-empty
  segments), \<^verbatim>\<open>run\<close> returns and records exactly one outcome per collection, in order,
  each the result of a call of \<^verbatim>\<open>exportCollection\<close> for that collection, whether or not
  earlier collections failed; it returns an error if and only if at least one outcome
  carries an error. The loop of the earlier revision (\<^verbatim>\<open>main.go\<close>) leaves the same files
  and exits with status 1 in exactly the same case.
\<close>

lemma valid_names_all_attempted:
  assumes "mkdirAll e output = None" and "newClient e = None"
    and "resolveCollections e collections = Inr collNames"
    and "\<forall>name\<in>set collNames. Collection name \<noteq> None"
  shows "\<exists>status results fs'.
           run e collections limit output fs = Inr (status, results, fs')
           \<and> map collection results = collNames
           \<and> (\<forall>i<length collNames. \<exists>fs_i fs_j.
                  exportCollection e (collNames ! i) limit output fs_i
                    = Inr (results ! i, fs_j))
           \<and> (status \<noteq> None \<longleftrightarrow> (\<exists>r\<in>set results. err r \<noteq> None))
           \<and> mainExport e collNames limit output fs
               = Inr (if \<exists>r\<in>set results. err r \<noteq> None then 1 else 0, fs')"
proof -
  from loops_valid [OF assms(4), of e limit "output" "[]" fs "[]"] obtain results fs' where
    l: "exportLoop e collNames limit output [] fs = Inr (results, fs')"
    and m: "mainLoop e collNames limit output [] fs = Inr (failedOf results, fs')"
    and one: "map collection results = collNames"
    and two: "\<forall>i<length collNames. \<exists>fs_i fs_j.
               exportCollection e (collNames ! i) limit output fs_i = Inr (results ! i, fs_j)"
    by (elim exE conjE) simp
  define status where "status = (if 0 < length (failedOf results)
             then Some (ExportFailed (length (failedOf results))) else None)"
  have run: "run e collections limit output fs = Inr (status, results, fs')"
    using assms(1-3) l by (simp add: run_def Let_def status_def)
  have failed: "failedOf results \<noteq> [] \<longleftrightarrow> (\<exists>r\<in>set results. err r \<noteq> None)"
    using failedOf_empty [of results] by simp
  have three: "status \<noteq> None \<longleftrightarrow> (\<exists>r\<in>set results. err r \<noteq> None)"
    unfolding status_def using failed by simp
  have "mainExport e collNames limit output fs
          = Inr (if 0 < length (failedOf results) then 1 else 0, fs')"
    using m by (simp add: mainExport_def)
  then have four: "mainExport e collNames limit output fs
             = Inr (if \<exists>r\<in>set results. err r \<noteq> None then 1 else 0, fs')"
    using failed by simp
  from run one two three four have
    "run e collections limit output fs = Inr (status, results, fs')
     \<and> map collection results = collNames
     \<and> (\<forall>i<length collNames. \<exists>fs_i fs_j.
            exportCollection e (collNames ! i) limit output fs_i = Inr (results ! i, fs_j))
     \<and> (status \<noteq> None \<longleftrightarrow> (\<exists>r\<in>set results. err r \<noteq> None))
     \<and> mainExport e collNames limit output fs
         = Inr (if \<exists>r\<in>set results. err r \<noteq> None then 1 else 0, fs')"
    by (intro conjI)
  then show ?thesis
    by (rule_tac x = status in exI, rule_tac x = results in exI, rule_tac x = fs' in exI)
qed

text \<open>
  A run over five collections of which the first three fail (a stream error, a file
  that cannot be created, a row the writer refuses): all five are attempted, the
  outcomes are recorded in order, \<^verbatim>\<open>run\<close> returns the error that counts the three
  failures and \<^verbatim>\<open>main.go\<close> exits with status 1.
\<close>

lemma failures_isolated_example:
  "map_sum id (map collection \<circ> fst \<circ> snd)
       (run world ''broken,locked,full,users,ghosts'' 0 ''out'' Map.empty)
     = Inr [''broken'', ''locked'', ''full'', ''users'', ''ghosts'']"
  "map_sum id (map err \<circ> fst \<circ> snd)
       (run world ''broken,locked,full,users,ghosts'' 0 ''out'' Map.empty)
     = Inr [Some (LibError ''unavailable''),
            Some (CreatingFile ''out/locked.csv'' (LibError ''permission denied'')),
            Some (WritingRow (LibError ''no space left'')),
            None, None]"
  "map_sum id fst (run world ''broken,locked,full,users,ghosts'' 0 ''out'' Map.empty)
     = Inr (Some (ExportFailed 3))"
  "map_sum id fst
       (mainExport world [''broken'', ''locked'', ''full'', ''users'', ''ghosts''] 0 ''out''
          Map.empty)
     = Inr 1"
  by code_simp+

text \<open>
  In that run the file of \<open>users\<close> is complete, the file of \<open>full\<close> holds the header
  and the first row, and no file exists for the three other collections.
\<close>

lemma partial_success_keeps_files:
  "map_sum id (\<lambda>r. snd (snd r) ''out/users.csv'')
       (run world ''broken,locked,full,users,ghosts'' 0 ''out'' Map.empty)
     = Inr (Some [[''__document_id__'', ''age'', ''name''], [''d1'', [], ''Alice''],
                  [''d2'', ''30'', ''Bob'']])"
  "map_sum id (\<lambda>r. snd (snd r) ''out/full.csv'')
       (run world ''broken,locked,full,users,ghosts'' 0 ''out'' Map.empty)
     = Inr (Some [[''__document_id__'', ''age'', ''name''], [''d1'', [], ''Alice'']])"
  "map_sum id (\<lambda>r. snd (snd r) ''out/locked.csv'')
       (run world ''broken,locked,full,users,ghosts'' 0 ''out'' Map.empty) = Inr None"
  "map_sum id (\<lambda>r. snd (snd r) ''out/broken.csv'')
       (run world ''broken,locked,full,users,ghosts'' 0 ''out'' Map.empty) = Inr None"
  "map_sum id (\<lambda>r. snd (snd r) ''out/ghosts.csv'')
       (run world ''broken,locked,full,users,ghosts'' 0 ''out'' Map.empty) = Inr None"
  by code_simp+

text \<open>
  A name that gives no collection reference ends the run: when the setup has succeeded
  and some resolved name is empty or has an even number of segments, \<^verbatim>\<open>run\<close> and the
  loop of \<^verbatim>\<open>main.go\<close> panic, whatever the other collections are.
\<close>

lemma invalid_name_aborts:
  assumes "mkdirAll e output = None" and "newClient e = None"
    and "resolveCollections e collections = Inr collNames"
    and "\<exists>name\<in>set collNames. Collection name = None"
  shows "run e collections limit output fs = Inl NilDereference
         \<and> mainExport e collNames limit output fs = Inl NilDereference"
  using assms(1-3) loops_invalid [OF assms(4), of e limit "output" "[]" fs "[]"]
  by (simp add: run_def mainExport_def)

text \<open>
  C7. The driver does not attempt every remaining collection after a failure when the
  list holds an empty name. The flag value \<^verbatim>\<open>broken,,users\<close> resolves to the names
  \<open>broken\<close>, the empty name and \<open>users\<close>. The export of \<open>broken\<close> returns a failure
  outcome (a stream read error), and the export of \<open>users\<close> on its own succeeds. But
  \<^verbatim>\<open>client.Collection\<close> of the empty name is \<^verbatim>\<open>nil\<close> and \<^verbatim>\<open>colRef.Query\<close> dereferences
  it, so the call for the second name panics and \<^verbatim>\<open>run\<close> ends there, and so does the
  loop of \<^verbatim>\<open>main.go\<close>: \<open>users\<close> is never attempted, no outcome is recorded for any
  collection, and the program ends with the status of a crash instead of the error that
  counts the failures.
\<close>

theorem empty_name_aborts_run:
  "resolveCollections world ''broken,,users'' = Inr [''broken'', [], ''users'']
   \<and> map_sum id (err \<circ> fst) (exportCollection world ''broken'' 0 ''out'' Map.empty)
       = Inr (Some (LibError ''unavailable''))
   \<and> map_sum id (err \<circ> fst) (exportCollection world ''users'' 0 ''out'' Map.empty)
       = Inr None
   \<and> Collection [] = None
   \<and> run world ''broken,,users'' 0 ''out'' Map.empty = Inl NilDereference
   \<and> mainExport world [''broken'', [], ''users''] 0 ''out'' Map.empty = Inl NilDereference"
proof -
  have names: "resolveCollections world ''broken,,users'' = Inr [''broken'', [], ''users'']"
    by code_simp
  have broken: "map_sum id (err \<circ> fst) (exportCollection world ''broken'' 0 ''out'' Map.empty)
                  = Inr (Some (LibError ''unavailable''))"
    by code_simp
  have users: "map_sum id (err \<circ> fst) (exportCollection world ''users'' 0 ''out'' Map.empty)
                 = Inr None"
    by code_simp
  have nil: "Collection [] = None"
    by (simp add: Collection_def)
  have "isl (run world ''broken,,users'' 0 ''out'' Map.empty)"
    by code_simp
  then have run: "run world ''broken,,users'' 0 ''out'' Map.empty = Inl NilDereference"
    by (cases "run world ''broken,,users'' 0 ''out'' Map.empty")
      (simp_all add: panic_unique)
  have "isl (mainExport world [''broken'', [], ''users''] 0 ''out'' Map.empty)"
    by code_simp
  then have main: "mainExport world [''broken'', [], ''users''] 0 ''out'' Map.empty
                     = Inl NilDereference"
    by (cases "mainExport world [''broken'', [], ''users''] 0 ''out'' Map.empty")
      (simp_all add: panic_unique)
  from names broken users nil run main show ?thesis by (intro conjI)
qed

section \<open>The value normalizer: floats\<close>

text \<open>
  What can be said of a float without its binary form. The text of a finite number holds
  no character but the sign, the point and the decimal digits, so no exponent
  (\<open>FormatFloat_f_fixed_point\<close>, which bounds the characters only); more precisely it
  is an optional sign, one or more digits and then, when there are fraction digits, one
  point followed by them (\<open>FormatFloat_f_shape\<close>); negative zero keeps its sign. That
  the text reads back as the same \<^verbatim>\<open>float64\<close> is a property of \<^verbatim>\<open>strconv\<close>'s
  shortest-digits conversion and of its parser, which are outside this development and
  not proved here.
\<close>

lemma digit_decimal: "digit n \<in> set ''0123456789''"
proof -
  have "n mod 10 < length ''0123456789''" by simp
  then show ?thesis unfolding digit_def by (rule nth_mem)
qed

lemma FormatFloat_f_fixed_point:
  "set (FormatFloat_f (Finite ng ds p)) \<subseteq> set ''-.0123456789''"
proof -
  have dig: "digit n \<in> set ''-.0123456789''" for n
    using digit_decimal [of n] by auto
  then have "set (digits xs) \<subseteq> set ''-.0123456789''" for xs
    by (auto simp: digits_def)
  with dig show ?thesis
    by (auto simp: fmtF_def Let_def split: if_splits)
qed

lemma FormatFloat_f_shape:
  "\<exists>ip fr. FormatFloat_f (Finite ng ds p)
              = (if ng then ''-'' else []) @ ip @ (if fr = [] then [] else CHR ''.'' # fr)
           \<and> ip \<noteq> [] \<and> set ip \<subseteq> set ''0123456789'' \<and> set fr \<subseteq> set ''0123456789''"
proof -
  define ip where "ip = (if 0 < p
        then digits (take (nat p) ds) @ replicate (nat p - length ds) (CHR ''0'')
        else ''0'')"
  define fr where "fr = map (\<lambda>i. let j = p + int i in
                         if 0 \<le> j \<and> j < int (length ds) then digit (ds ! nat j)
                         else CHR ''0'') [0 ..< nat (int (length ds) - p)]"
  have dig: "digit n \<in> set ''0123456789''" for n by (rule digit_decimal)
  have eq: "FormatFloat_f (Finite ng ds p)
          = (if ng then ''-'' else []) @ ip @ (if fr = [] then [] else CHR ''.'' # fr)"
    by (simp add: fmtF_def ip_def fr_def)
  have "length ip = (if 0 < p then nat p else 1)"
    by (auto simp: ip_def digits_def)
  then have ne: "ip \<noteq> []" by (auto split: if_splits)
  have "set (digits xs) \<subseteq> set ''0123456789''" for xs
    using dig by (auto simp: digits_def)
  then have s1: "set ip \<subseteq> set ''0123456789''"
    by (auto simp: ip_def)
  have s2: "set fr \<subseteq> set ''0123456789''"
    using dig by (auto simp: fr_def Let_def)
  from eq ne s1 s2 show ?thesis
    by (rule_tac x = ip in exI, rule_tac x = fr in exI) (intro conjI)
qed

lemma negative_zero: "FormatFloat_f (Finite True [] 0) = ''-0''"
  by (simp add: fmtF_def)

section \<open>The value normalizer: timestamps\<close>

lemma digit_nonzero: "0 < n \<Longrightarrow> n < 10 \<Longrightarrow> digit n \<noteq> CHR ''0''"
proof -
  assume "0 < n" "n < 10"
  then have "n \<in> {1, 2, 3, 4, 5, 6, 7, 8, 9}" by auto
  then show ?thesis by (auto simp: digit_def)
qed

lemma length_dec: "0 < k \<Longrightarrow> n < 10 ^ k \<Longrightarrow> length (dec n) \<le> k"
proof (induction n arbitrary: k rule: dec.induct)
  case (1 n)
  show ?case
  proof (cases "n < 10")
    case True
    then show ?thesis using "1.prems" by (simp add: dec.simps [of n])
  next
    case False
    obtain j where k: "k = Suc j" using "1.prems"(1) by (cases k) simp_all
    have "0 < j" using False "1.prems"(2) k by (cases j) simp_all
    moreover have "n div 10 < 10 ^ j" using "1.prems"(2) k by simp
    ultimately have "length (dec (n div 10)) \<le> j" using "1.IH" [OF False] by simp
    then show ?thesis using False k by (simp add: dec.simps [of n])
  qed
qed

lemma dec_has_nonzero: "0 < n \<Longrightarrow> \<exists>c\<in>set (dec n). c \<noteq> CHR ''0''"
proof (induction n rule: dec.induct)
  case (1 n)
  show ?case
  proof (cases "n < 10")
    case True
    then show ?thesis using "1.prems" digit_nonzero [of n] by (simp add: dec.simps [of n])
  next
    case False
    then have "0 < n div 10" by simp
    from "1.IH" [OF False this] show ?thesis using False by (auto simp: dec.simps [of n])
  qed
qed

lemma length_appendInt: "length (dec x) \<le> width \<Longrightarrow> length (appendInt x width) = width"
  by (simp add: appendInt_def)

lemma trimZeros_zeros:
  "trimZeros s @ replicate (length s - length (trimZeros s)) (CHR ''0'') = s"
proof -
  let ?P = "\<lambda>c. c = CHR ''0''"
  have "takeWhile ?P (rev s) = replicate (length (takeWhile ?P (rev s))) (CHR ''0'')"
    by (rule replicate_length_same [symmetric]) (auto dest: set_takeWhileD)
  moreover have "length (takeWhile ?P (rev s)) = length s - length (trimZeros s)"
  proof -
    have "length (takeWhile ?P (rev s) @ dropWhile ?P (rev s)) = length (rev s)"
      by (simp only: takeWhile_dropWhile_id)
    then have "length (takeWhile ?P (rev s)) + length (dropWhile ?P (rev s)) = length s"
      by (simp only: length_append length_rev)
    then show ?thesis by (simp add: trimZeros_def)
  qed
  ultimately have tw: "rev (takeWhile ?P (rev s))
                    = replicate (length s - length (trimZeros s)) (CHR ''0'')"
    by (metis rev_replicate)
  have "s = rev (takeWhile ?P (rev s) @ dropWhile ?P (rev s))" by simp
  also have "\<dots> = trimZeros s @ rev (takeWhile ?P (rev s))"
    by (simp only: rev_append trimZeros_def)
  finally show ?thesis using tw by simp
qed

lemma trimZeros_nonempty: "\<exists>c\<in>set s. c \<noteq> CHR ''0'' \<Longrightarrow> trimZeros s \<noteq> []"
  by (simp add: trimZeros_def dropWhile_eq_Nil_conv)

lemma last_trimZeros: "trimZeros s \<noteq> [] \<Longrightarrow> last (trimZeros s) \<noteq> CHR ''0''"
  using hd_dropWhile [of "\<lambda>c. c = CHR ''0''" "rev s"]
  by (simp add: trimZeros_def last_rev)

lemma length_trimZeros: "length (trimZeros s) \<le> length s"
  by (simp add: trimZeros_def length_dropWhile_le [of _ "rev s", simplified])

text \<open>
  C2 (as amended). For a timestamp with a non-zero nanosecond (below \<open>10\<^sup>9\<close>),
  \<^verbatim>\<open>formatValue\<close> gives the date and time, a point, the fraction and \<^verbatim>\<open>Z\<close>, where the
  fraction is the nine-digit nanosecond with its trailing zeros removed: between one
  and nine digits, the last one not a zero.
\<close>

theorem timestamp_fraction_trimmed:
  assumes "0 < nanosecond t" and "nanosecond t < 1000000000"
  shows "\<exists>frac. formatValue (VTime t) = dateTime t @ ''.'' @ frac @ ''Z''
           \<and> frac \<noteq> [] \<and> length frac \<le> 9 \<and> last frac \<noteq> CHR ''0''
           \<and> length (appendInt (nanosecond t) 9) = 9
           \<and> frac @ replicate (9 - length frac) (CHR ''0'') = appendInt (nanosecond t) 9"
proof -
  let ?nine = "appendInt (nanosecond t) 9"
  let ?frac = "trimZeros ?nine"
  have "nanosecond t < 10 ^ 9" using assms(2) by simp
  then have "length (dec (nanosecond t)) \<le> 9" by (intro length_dec) simp_all
  then have len: "length ?nine = 9" by (rule length_appendInt)
  have "\<exists>c\<in>set ?nine. c \<noteq> CHR ''0''"
    using dec_has_nonzero [OF assms(1)] by (auto simp: appendInt_def)
  then have ne: "?frac \<noteq> []" by (rule trimZeros_nonempty)
  have l9: "length ?frac \<le> 9" using length_trimZeros [of ?nine] len by simp
  have lst: "last ?frac \<noteq> CHR ''0''" using ne by (rule last_trimZeros)
  have pad: "?frac @ replicate (9 - length ?frac) (CHR ''0'') = ?nine"
    using trimZeros_zeros [of ?nine] len by simp
  have out: "formatValue (VTime t) = dateTime t @ ''.'' @ ?frac @ ''Z''"
    using assms(1) by (simp add: Format_RFC3339Nano_def appendNano_def)
  from out ne l9 lst len pad show ?thesis
    by (intro exI [of _ ?frac] conjI)
qed

theorem timestamp_fraction_trimmed_witness:
  "0 < nanosecond stamp \<and> nanosecond stamp < 1000000000
   \<and> (\<exists>frac. formatValue (VTime stamp) = dateTime stamp @ ''.'' @ frac @ ''Z''
           \<and> frac \<noteq> [] \<and> length frac \<le> 9 \<and> last frac \<noteq> CHR ''0''
           \<and> length (appendInt (nanosecond stamp) 9) = 9
           \<and> frac @ replicate (9 - length frac) (CHR ''0'') = appendInt (nanosecond stamp) 9)"
proof -
  have a: "0 < nanosecond stamp" by (simp add: stamp_def)
  have b: "nanosecond stamp < 1000000000" by (simp add: stamp_def)
  from timestamp_fraction_trimmed [OF a b] a b show ?thesis by (intro conjI)
qed

text \<open>
  C2 as stated fails: the nanosecond \<open>123000000\<close> is printed as \<^verbatim>\<open>.123\<close>, not at nine
  digits.
\<close>

theorem timestamp_trailing_zeros_counterexample:
  "formatValue (VTime stamp) = ''2024-01-15T10:30:00.123Z''
   \<and> formatValue (VTime stamp) \<noteq> ''2024-01-15T10:30:00.123000000Z''"
  by (simp add: stamp_def Format_RFC3339Nano_def dateTime_def appendInt_def appendNano_def
      trimZeros_def dec.simps digit_def)

section \<open>The value normalizer: arrays and maps\<close>



lemma map_insort_key: "map f (insort_key f x xs) = insort (f x) (map f xs)"
  by (induction xs) simp_all

lemma map_sort_key: "map f (sort_key f xs) = sort (map f xs)"
  by (induction xs) (simp_all add: map_insort_key)










section \<open>The value normalizer: determinism\<close>

lemma insort_key_map_commute:
  "(\<And>x. f' (g x) = f x) \<Longrightarrow>
   insort_key f' (g x) (map g ys) = map g (insort_key f x ys)"
  by (induction ys) simp_all

lemma sort_key_map_commute:
  "(\<And>x. f' (g x) = f x) \<Longrightarrow> sort_key f' (map g xs) = map g (sort_key f xs)"
  by (induction xs) (simp_all add: insort_key_map_commute [where f = f])

lemma sort_key_twice: "sort_key f (sort_key f xs) = sort_key f xs"
  by (rule sort_key_id_if_sorted) simp

lemma marshal_canon: "marshal (convertForJSON (canon v)) = marshal (convertForJSON v)"
proof (induction v)
  case (VSlice xs)
  then have "map (\<lambda>x. marshal (convertForJSON (canon x))) xs
               = map (\<lambda>x. marshal (convertForJSON x)) xs"
    by (intro map_cong refl)
  then have "map marshal (map convertForJSON (map canon xs))
               = map marshal (map convertForJSON xs)"
    by (simp only: map_map comp_def)
  then show ?case by (simp only: canon.simps convertForJSON.simps marshal.simps)
next
  case (VMap kvs)
  let ?C = "\<lambda>(k, elem). (k, canon elem)"
  let ?J = "\<lambda>(k, elem). (k, convertForJSON elem)"
  let ?M = "\<lambda>(k, e). map_option (Pair k) (marshal e)"
  have fstC: "fst (?C x) = fst x" for x :: "string \<times> value" by (cases x) simp
  have fstJ: "fst (?J x) = fst x" for x :: "string \<times> value" by (cases x) simp
  have "sort_key fst (map ?J (sort_key fst (map ?C kvs)))
          = map ?J (sort_key fst (sort_key fst (map ?C kvs)))"
    by (rule sort_key_map_commute) (rule fstJ)
  also have "\<dots> = map ?J (sort_key fst (map ?C kvs))" by (simp only: sort_key_twice)
  also have "\<dots> = map ?J (map ?C (sort_key fst kvs))"
    by (simp only: sort_key_map_commute [where f = fst and f' = fst and g = ?C, OF fstC])
  finally have left: "sort_key fst (map ?J (sort_key fst (map ?C kvs)))
                        = map ?J (map ?C (sort_key fst kvs))" .
  have right: "sort_key fst (map ?J kvs) = map ?J (sort_key fst kvs)"
    by (rule sort_key_map_commute) (rule fstJ)
  have "?M (?J (?C kv)) = ?M (?J kv)" if "kv \<in> set (sort_key fst kvs)" for kv
  proof -
    obtain k e where kv: "kv = (k, e)" by (cases kv)
    with that have "(k, e) \<in> set kvs" by simp
    then have "marshal (convertForJSON (canon e)) = marshal (convertForJSON e)"
      by (rule VMap.IH) simp
    then show ?thesis using kv by simp
  qed
  then have "map (\<lambda>kv. ?M (?J (?C kv))) (sort_key fst kvs)
               = map (\<lambda>kv. ?M (?J kv)) (sort_key fst kvs)"
    by (intro map_cong refl)
  then have "map ?M (map ?J (map ?C (sort_key fst kvs))) = map ?M (map ?J (sort_key fst kvs))"
    by (simp only: map_map comp_def)
  then show ?case by (simp only: canon.simps convertForJSON.simps marshal.simps left right)
qed simp_all

lemma formatValue_canon: "formatValue (canon v) = formatValue v"
proof (cases v)
  case (VSlice xs)
  have "formatValue (canon v) = marshalString (convertForJSON (canon v))"
    unfolding VSlice by simp
  also have "\<dots> = marshalString (convertForJSON v)"
    by (simp add: marshalString_def Marshal_def marshal_canon)
  finally show ?thesis unfolding VSlice by simp
next
  case (VMap kvs)
  have "formatValue (canon v) = marshalString (convertForJSON (canon v))"
    unfolding VMap by simp
  also have "\<dots> = marshalString (convertForJSON v)"
    by (simp add: marshalString_def Marshal_def marshal_canon)
  finally show ?thesis unfolding VMap by simp
qed simp_all

lemma filter_same_key:
  "distinct (map f zs) \<Longrightarrow> k \<in> set zs \<Longrightarrow> filter (\<lambda>x. f k = f x) zs = [k]"
proof (induction zs)
  case Nil
  then show ?case by simp
next
  case (Cons z zs)
  show ?case
  proof (cases "k = z")
    case True
    have "filter (\<lambda>x. f z = f x) zs = []"
      using Cons.prems(1) by (auto simp: filter_empty_conv)
    with True show ?thesis by simp
  next
    case False
    with Cons.prems have in_zs: "k \<in> set zs" by simp
    from Cons.prems(1) have "f z \<notin> f ` set zs" by simp
    with in_zs have "f k \<noteq> f z" by (metis imageI)
    note in_zs this
    with Cons show ?thesis by simp
  qed
qed

lemma sort_key_map_of_unique:
  assumes "distinct (map fst xs)" and "distinct (map fst ys)" and "map_of xs = map_of ys"
  shows "sort_key fst xs = sort_key fst ys"
proof (rule properties_for_sort_key)
  have "set xs = set ys" using assms by (simp add: map_of_inject_set)
  moreover have "distinct xs" "distinct ys" using assms(1,2) by (simp_all add: distinct_map)
  ultimately have m: "mset xs = mset ys" by (simp add: set_eq_iff_mset_eq_distinct)
  then show "mset (sort_key fst ys) = mset xs" by simp
  show "sorted (map fst (sort_key fst ys))" by simp
  fix k assume k: "k \<in> set (sort_key fst ys)"
  have "distinct (map fst (sort_key fst ys))"
    using assms(2) by (simp add: map_sort_key)
  then have "filter (\<lambda>x. fst k = fst x) (sort_key fst ys) = [k]"
    using k by (rule filter_same_key)
  moreover have "k \<in> set xs" using k mset_eq_setD [OF m] by simp
  then have "filter (\<lambda>x. fst k = fst x) xs = [k]"
    using assms(1) by (intro filter_same_key)
  ultimately show "filter (\<lambda>x. fst k = fst x) (sort_key fst ys) = filter (\<lambda>x. fst k = fst x) xs"
    by simp
qed

text \<open>
  Two listings of a map with distinct keys, the same keys and, key by key, values with
  the same \<open>canon\<close>, have the same \<open>canon\<close>.
\<close>

lemma canon_VMap_eq:
  assumes "distinct (map fst kvs)" and "distinct (map fst kvs')"
    and "\<And>k. map_option canon (map_of kvs k) = map_option canon (map_of kvs' k)"
  shows "canon (VMap kvs) = canon (VMap kvs')"
proof -
  let ?C = "\<lambda>(k, elem). (k, canon elem)"
  have keys: "map fst (map ?C xs) = map fst xs" for xs :: "(string \<times> value) list"
    by (simp add: case_prod_unfold)
  have "map_of (map ?C xs) k = map_option canon (map_of xs k)"
    for xs :: "(string \<times> value) list" and k
    by (induction xs) auto
  with assms(3) have "map_of (map ?C kvs) = map_of (map ?C kvs')" by (intro ext) simp
  then have "sort_key fst (map ?C kvs) = sort_key fst (map ?C kvs')"
    using assms(1,2) by (intro sort_key_map_of_unique) (simp_all only: keys)
  then show ?thesis by simp
qed

text \<open>
  C9. \<^verbatim>\<open>formatValue\<close> gives a text for every value: its definition has an equation for
  each of the eleven variants (and for the \<^verbatim>\<open>default\<close> branch), its recursion through
  nested arrays and maps terminates
  (the definitions of \<^const>\<open>convertForJSON\<close>, \<^const>\<open>marshal\<close> and \<^const>\<open>render\<close>
  above), and an error of \<^verbatim>\<open>json.Marshal\<close> does not escape it. It is deterministic
  although Go visits a map in an order that changes from one \<^verbatim>\<open>range\<close> loop to the
  next: two listings of the same value, which differ in the order of their maps only,
  give the same text.
\<close>

theorem formatValue_total_deterministic:
  "(\<exists>s. formatValue v = s)
   \<and> (canon v = canon w \<longrightarrow> formatValue v = formatValue w)"
proof (intro conjI impI)
  show "\<exists>s. formatValue v = s" by (rule exI) (rule refl)
next
  assume same: "canon v = canon w"
  have "formatValue v = formatValue (canon v)" by (rule formatValue_canon [symmetric])
  also have "\<dots> = formatValue (canon w)" by (simp only: same)
  also have "\<dots> = formatValue w" by (rule formatValue_canon)
  finally show "formatValue v = formatValue w" .
qed

theorem formatValue_total_deterministic_witness:
  "canon listing1 = canon listing2 \<and> listing1 \<noteq> listing2
   \<and> formatValue listing1 = formatValue listing2"
proof -
  have c: "canon listing1 = canon listing2" by code_simp
  have d: "listing1 \<noteq> listing2" by (simp add: listing1_def listing2_def)
  from formatValue_total_deterministic [of listing1 listing2] c
  have "formatValue listing1 = formatValue listing2" by (elim conjE impE)
  with c d show ?thesis by (intro conjI)
qed

section \<open>The value normalizer: numbers that JSON cannot hold\<close>

text \<open>
  \<^verbatim>\<open>json.Marshal\<close> fails on the converted value exactly when the value holds a number
  that is not finite; the cell of such an array or map is empty.
\<close>

lemma those_eq_None: "those xs = None \<longleftrightarrow> None \<in> set xs"
  by (induction xs) (auto split: option.splits)

lemma those_map_None: "those (map f xs) = None \<longleftrightarrow> (\<exists>x\<in>set xs. f x = None)"
  unfolding those_eq_None by (induction xs) auto

lemma marshal_None_iff: "marshal (convertForJSON v) = None \<longleftrightarrow> nonFinite v"
proof (induction v)
  case (VFloat f)
  show ?case by (cases f) simp_all
next
  case (VLatLng la lo)
  show ?case by (cases la; cases lo) (simp_all add: latLngMap_def)
next
  case (VSlice xs)
  have "(\<exists>x\<in>set xs. marshal (convertForJSON x) = None) \<longleftrightarrow> (\<exists>x\<in>set xs. nonFinite x)"
    using VSlice by simp
  then show ?case by (simp add: those_map_None comp_def)
next
  case (VMap kvs)
  let ?J = "\<lambda>(k, elem). (k, convertForJSON elem)"
  let ?M = "\<lambda>(k, e). map_option (Pair k) (marshal e)"
  have one: "?M (?J kv) = None \<longleftrightarrow> nonFinite (snd kv)" if "kv \<in> set kvs" for kv
  proof -
    obtain k e where kv: "kv = (k, e)" by (cases kv)
    with that have "marshal (convertForJSON e) = None \<longleftrightarrow> nonFinite e"
      by (intro VMap.IH [of kv]) simp_all
    then show ?thesis using kv by simp
  qed
  have "marshal (convertForJSON (VMap kvs)) = None
          \<longleftrightarrow> (\<exists>kv\<in>set (sort_key fst (map ?J kvs)). ?M kv = None)"
    by (simp add: those_map_None)
  also have "\<dots> \<longleftrightarrow> (\<exists>kv\<in>set kvs. ?M (?J kv) = None)" by simp
  also have "\<dots> \<longleftrightarrow> (\<exists>kv\<in>set kvs. nonFinite (snd kv))" using one by simp
  finally show ?case by simp
qed simp_all

lemma nonFinite_cell_empty:
  assumes "nonFinite v" and "(\<exists>xs. v = VSlice xs) \<or> (\<exists>kvs. v = VMap kvs)"
  shows "formatValue v = []"
proof -
  from assms(1) have "marshal (convertForJSON v) = None" by (simp add: marshal_None_iff)
  then have "marshalString (convertForJSON v) = []"
    by (simp add: marshalString_def Marshal_def)
  with assms(2) show ?thesis by auto
qed

text \<open>
  C6. The cell of an array or a map that holds a \<^verbatim>\<open>NaN\<close> or an infinity is the empty
  string, which is not a JSON text: \<^verbatim>\<open>json.Marshal\<close> returns an error for such a
  number and \<^verbatim>\<open>formatValue\<close> drops the error. The same number as a field of its own is
  printed by name.
\<close>

theorem nan_in_array_empties_cell:
  "formatValue (VSlice [VInt 1, VFloat NaN]) = []
   \<and> formatValue (VMap [(''ratio'', VFloat (Inf False))]) = []
   \<and> formatValue (VFloat NaN) = ''NaN''"
  by (simp add: marshalString_def Marshal_def)

end
